theory Spec2Isabelle
  imports Complex_Main
begin

section \<open>Numbers, strings and dates of the host language\<close>

text \<open>
  The engine is written in TypeScript. Its numbers are IEEE doubles. They are modelled as
  real numbers, and the arithmetic and the trigonometric functions are the exact ones, but
  for three places where the doubles decide a property stated below:
  \<^item> the addition in \<open>normalizeDegrees\<close> is rounded to the nearest double
    (\<open>round_double\<close>);
  \<^item> a value beyond the range of the doubles in the true solar time of \<open>solarPosition\<close>
    is infinite and leads to \<open>NaN\<close> (\<open>double_overflows\<close>);
  \<^item> the operations that compute the cosine of the zenith angle in \<open>solarPosition\<close>, from
    the sines and cosines to the sum, are rounded by a function that is a parameter of the
    model, of which nothing is assumed.
  Two more non-finite values matter to the control flow and are explicit: a parse that
  yields no number (\<open>NaN\<close>, here \<open>None\<close> of an \<open>int option\<close>) and the time value of an
  invalid \<open>Date\<close> (here \<open>None\<close> of \<open>Date_UTC\<close>). A field that holds a number or \<open>NaN\<close>
  has type \<open>jsnum\<close>; a field that may also be \<open>null\<close> has type \<open>jsnum option\<close>.
  Characters are the 8-bit characters of HOL; upper-casing acts on the ASCII letters.
\<close>

datatype jsnum = Finite real | NaN

text \<open>The remainder operator \<open>a % b\<close>: the quotient is truncated towards zero, so the
  result has the sign of \<open>a\<close>. Every use in the engine has a non-zero constant \<open>b\<close>.\<close>

definition js_trunc :: "real \<Rightarrow> int" where
  "js_trunc q = (if 0 \<le> q then \<lfloor>q\<rfloor> else \<lceil>q\<rceil>)"

definition js_rem :: "real \<Rightarrow> real \<Rightarrow> real" where
  "js_rem a b = a - b * of_int (js_trunc (a / b))"

text \<open>Rounding to the nearest double, ties to the even significand. A double is an
  integer multiple of its unit in the last place, \<open>2 ^ (e - 52)\<close> for a number of binary
  exponent \<open>e\<close>, and \<open>2 ^ (- 1074)\<close> at least. The result is the double that the hardware
  returns as long as it is finite, that is, for an argument that \<open>double_overflows\<close>
  rejects: from \<open>2 ^ 1024 - 2 ^ 970\<close> on, the rounded value is infinite.\<close>

definition round_even :: "real \<Rightarrow> int" where
  "round_even q =
     (let f = \<lfloor>q\<rfloor>
      in if q - of_int f < 1 / 2 then f
         else if 1 / 2 < q - of_int f then f + 1
         else if even f then f else f + 1)"

definition ulp_exponent :: "real \<Rightarrow> int" where
  "ulp_exponent x = max (\<lfloor>log 2 \<bar>x\<bar>\<rfloor> - 52) (- 1074)"

definition round_double :: "real \<Rightarrow> real" where
  "round_double x =
     (if x = 0 then 0
      else 2 powi ulp_exponent x * of_int (round_even (x / 2 powi ulp_exponent x)))"

definition double_overflows :: "real \<Rightarrow> bool" where
  "double_overflows x = (2 ^ 1024 - 2 ^ 970 \<le> \<bar>x\<bar>)"

text \<open>\<open>Math.atan2(y, x)\<close>, the angle of the point \<open>(x, y)\<close> in \<open>[-\<pi>, \<pi>]\<close>.\<close>

definition js_atan2 :: "real \<Rightarrow> real \<Rightarrow> real" where
  "js_atan2 y x =
     (if 0 < x then arctan (y / x)
      else if x < 0 then (if 0 \<le> y then arctan (y / x) + pi else arctan (y / x) - pi)
      else if 0 < y then pi / 2
      else if y < 0 then - (pi / 2)
      else 0)"

subsection \<open>Strings\<close>

definition is_ws :: "char \<Rightarrow> bool" where
  "is_ws c = (c \<in> set [CHR 0x09, CHR 0x0A, CHR 0x0B, CHR 0x0C, CHR 0x0D, CHR 0x20, CHR 0xA0])"

definition is_digit :: "char \<Rightarrow> bool" where
  "is_digit c = (c \<in> set ''0123456789'')"

definition digit_val :: "char \<Rightarrow> int" where
  "digit_val c = of_char c - 48"

definition digits_value :: "string \<Rightarrow> int" where
  "digits_value ds = foldl (\<lambda>acc c. 10 * acc + digit_val c) 0 ds"

text \<open>\<open>s.split(c)\<close>: the pieces between the occurrences of \<open>c\<close>; never empty.\<close>

fun split_str :: "char \<Rightarrow> string \<Rightarrow> string list" where
  "split_str c [] = [[]]"
| "split_str c (x # xs) =
     (if x = c then [] # split_str c xs
      else (case split_str c xs of
              w # ws \<Rightarrow> (x # w) # ws
            | [] \<Rightarrow> [[x]]))"

text \<open>Array destructuring: a missing element is \<open>undefined\<close>, here \<open>None\<close>.\<close>

definition nth_opt :: "'a list \<Rightarrow> nat \<Rightarrow> 'a option" where
  "nth_opt xs i = (if i < length xs then Some (xs ! i) else None)"

text \<open>\<open>Number.parseInt(s, 10)\<close>: leading white space is skipped, one sign is read, then
  the longest run of decimal digits; no digit gives \<open>NaN\<close>. \<open>undefined\<close> is read as the
  text "undefined" and gives \<open>NaN\<close>.\<close>

definition parseInt10 :: "string option \<Rightarrow> int option" where
  "parseInt10 arg =
     (case arg of
        None \<Rightarrow> None
      | Some s \<Rightarrow>
          (let t = dropWhile is_ws s;
               (sgn, u) = (case t of
                              c # r \<Rightarrow> if c = CHR ''-'' then (- 1, r)
                                       else if c = CHR ''+'' then (1, r)
                                       else (1, t)
                            | [] \<Rightarrow> (1, []));
               ds = takeWhile is_digit u
           in if ds = [] then None else Some (sgn * digits_value ds)))"

text \<open>\<open>Number.isFinite\<close> on a parsed integer: \<open>NaN\<close> is not finite, and an integer too
  large for a double (it rounds to an infinity from \<open>2^1024 - 2^970\<close> on) is not either.\<close>

definition Number_isFinite :: "int option \<Rightarrow> bool" where
  "Number_isFinite v = (case v of None \<Rightarrow> False | Some n \<Rightarrow> \<bar>n\<bar> < 2 ^ 1024 - 2 ^ 970)"

definition toUpperCase :: "string \<Rightarrow> string" where
  "toUpperCase s =
     map (\<lambda>c. if 97 \<le> (of_char c :: nat) \<and> (of_char c :: nat) \<le> 122
               then char_of ((of_char c :: nat) - 32) else c) s"

definition trim :: "string \<Rightarrow> string" where
  "trim s = rev (dropWhile is_ws (rev (dropWhile is_ws s)))"

text \<open>\<open>s.replace(/^p/, '')\<close> for a literal prefix \<open>p\<close>.\<close>

definition strip_prefix :: "string \<Rightarrow> string \<Rightarrow> string" where
  "strip_prefix p s = (if take (length p) s = p then drop (length p) s else s)"

subsection \<open>Dates\<close>

text \<open>\<open>Date.UTC(year, month, day, 0, 0, 0)\<close> after the language standard: the day number
  of the first day of the year, the offset of the month in the year, years 0 to 99 read as
  1900 to 1999, months outside 0..11 carried into the year, and a time value beyond
  \<open>8.64e15\<close> milliseconds is \<open>NaN\<close> (\<open>None\<close>).\<close>

definition DayFromYear :: "int \<Rightarrow> int" where
  "DayFromYear y =
     365 * (y - 1970) + (y - 1969) div 4 - (y - 1901) div 100 + (y - 1601) div 400"

definition InLeapYear :: "int \<Rightarrow> bool" where
  "InLeapYear y = ((y mod 4 = 0 \<and> y mod 100 \<noteq> 0) \<or> y mod 400 = 0)"

definition MonthStart :: "int \<Rightarrow> bool \<Rightarrow> int" where
  "MonthStart mn leap =
     [0, 31, 59, 90, 120, 151, 181, 212, 243, 273, 304, 334] ! nat mn
       + (if 2 \<le> mn \<and> leap then 1 else 0)"

definition MakeDay :: "int \<Rightarrow> int \<Rightarrow> int \<Rightarrow> int" where
  "MakeDay year month date =
     (let ym = year + month div 12;
          mn = month mod 12
      in DayFromYear ym + MonthStart mn (InLeapYear ym) + date - 1)"

definition Date_UTC :: "int \<Rightarrow> int \<Rightarrow> int \<Rightarrow> int option" where
  "Date_UTC year month day =
     (let yr = (if 0 \<le> year \<and> year \<le> 99 then 1900 + year else year);
          tv = MakeDay yr month day * 86400000
      in if \<bar>tv\<bar> \<le> 8640000000000000 then Some tv else None)"

text \<open>\<open>new Date(ms)\<close> for a number of milliseconds: the time value is truncated to an
  integer, and is invalid (\<open>None\<close>) beyond \<open>8.64e15\<close>.\<close>

definition new_Date :: "real \<Rightarrow> int option" where
  "new_Date ms = (if \<bar>ms\<bar> \<le> 8640000000000000 then Some (js_trunc ms) else None)"

section \<open>AngleMath\<close>

definition DEG2RAD :: real where
  "DEG2RAD = pi / 180"

definition RAD2DEG :: real where
  "RAD2DEG = 180 / pi"

definition deg2rad :: "real \<Rightarrow> real" where
  "deg2rad deg = deg * DEG2RAD"

definition rad2deg :: "real \<Rightarrow> real" where
  "rad2deg rad = rad * RAD2DEG"

definition clamp :: "real \<Rightarrow> real \<Rightarrow> real \<Rightarrow> real" where
  "clamp v lo hi = min hi (max lo v)"

text \<open>The remainder \<open>%\<close> of two doubles is exact; the sum \<open>normalized + 360\<close> is rounded.\<close>

definition normalizeDegrees :: "real \<Rightarrow> real" where
  "normalizeDegrees angle =
     (let normalized = js_rem angle 360
      in if normalized < 0 then round_double (normalized + 360) else normalized)"

section \<open>JulianClock\<close>

text \<open>A valid \<open>Date\<close> is its time value, an integer number of milliseconds since the
  epoch; \<open>getTime()\<close> returns it.\<close>

record JulianDate =
  jd :: real
  jc :: real

definition toJulianDate :: "int \<Rightarrow> JulianDate" where
  "toJulianDate date =
     (let unixDays = real_of_int date / 86400000;
          jd = unixDays + 2440587.5;
          jc = (jd - 2451545.0) / 36525
      in \<lparr>jd = jd, jc = jc\<rparr>)"

section \<open>SolarEphemeris\<close>

text \<open>The argument of \<open>solarDeclinationAndEoT\<close> is the Julian century (\<open>jc\<close> in the
  source, \<open>T\<close> here, since \<open>jc\<close> is the field selector).\<close>

record SolarDeclinationResult =
  declination :: real
  equationOfTime :: real

record SolarPosition = SolarDeclinationResult +
  altitude :: jsnum
  azimuth :: jsnum

definition solarDeclinationAndEoT :: "real \<Rightarrow> SolarDeclinationResult" where
  "solarDeclinationAndEoT T =
     (let geomMeanLong = normalizeDegrees (280.46646 + T * (36000.76983 + T * 0.0003032));
          geomMeanAnomaly = 357.52911 + T * (35999.05029 - 0.0001537 * T);
          eccentEarthOrbit = 0.016708634 - T * (0.000042037 + 0.0000001267 * T);
          sunEqCenter =
            sin (deg2rad geomMeanAnomaly) * (1.914602 - T * (0.004817 + 0.000014 * T)) +
            sin (deg2rad (2 * geomMeanAnomaly)) * (0.019993 - 0.000101 * T) +
            sin (deg2rad (3 * geomMeanAnomaly)) * 0.000289;
          sunTrueLong = geomMeanLong + sunEqCenter;
          sunAppLong = sunTrueLong - 0.00569 - 0.00478 * sin (deg2rad (125.04 - 1934.136 * T));
          meanObliq = 23 + (26 + (21.448 - T * (46.815 + T * (0.00059 - T * 0.001813))) / 60) / 60;
          obliqCorr = meanObliq + 0.00256 * cos (deg2rad (125.04 - 1934.136 * T));
          decl = rad2deg (arcsin (sin (deg2rad obliqCorr) * sin (deg2rad sunAppLong)));
          y = tan (deg2rad obliqCorr / 2);
          y2 = y * y;
          eot =
            4 * rad2deg
              (y2 * sin (2 * deg2rad geomMeanLong) -
               2 * eccentEarthOrbit * sin (deg2rad geomMeanAnomaly) +
               4 * eccentEarthOrbit * y2 * sin (deg2rad geomMeanAnomaly) * cos (2 * deg2rad geomMeanLong) -
               0.5 * y2 * y2 * sin (4 * deg2rad geomMeanLong) -
               1.25 * eccentEarthOrbit * eccentEarthOrbit * sin (2 * deg2rad geomMeanAnomaly))
      in \<lparr>declination = decl, equationOfTime = eot\<rparr>)"

text \<open>The minutes of the UTC day of a time value, from \<open>getUTCHours\<close>,
  \<open>getUTCMinutes\<close>, \<open>getUTCSeconds\<close> and \<open>getUTCMilliseconds\<close>.\<close>

definition utcMinutesOfDay :: "int \<Rightarrow> real" where
  "utcMinutesOfDay t =
     real_of_int ((t div 3600000) mod 24) * 60 +
     real_of_int ((t div 60000) mod 60) +
     real_of_int ((t div 1000) mod 60) / 60 +
     real_of_int (t mod 1000) / 60000"

text \<open>\<open>solarPosition\<close>. The sum \<open>utcMinutes + equationOfTime + 4 * longitude\<close> is where a
  finite argument can leave the range of the doubles: when \<open>4 * longitude\<close> or the sum
  overflows, the value is infinite, its remainder by 1440 is \<open>NaN\<close>, the comparisons with
  \<open>NaN\<close> are false and every later operation, \<open>clamp\<close>, \<open>acos\<close>, \<open>atan2\<close> and
  \<open>normalizeDegrees\<close> included, returns \<open>NaN\<close>: the altitude and the azimuth are \<open>NaN\<close>.

  The parameter \<open>rnd\<close> is the rounding of the double operations that compute \<open>cosZenith\<close>,
  the value that is clamped, from the three angles in radians: the five calls of \<open>sin\<close>
  and \<open>cos\<close>, the three products and the sum. With the identity for \<open>rnd\<close> the arithmetic
  is exact. \<open>solarPosition_cosZenith\<close> is that value, as \<open>solarPosition\<close> computes it
  before the clamp.\<close>

definition solarPosition_cosZenith :: "(real \<Rightarrow> real) \<Rightarrow> real \<Rightarrow> real \<Rightarrow> int \<Rightarrow> real" where
  "solarPosition_cosZenith rnd latitude longitude dateUtc =
     (let T = jc (toJulianDate dateUtc);
          e = solarDeclinationAndEoT T;
          utcMinutes = utcMinutesOfDay dateUtc;
          tst0 = js_rem (utcMinutes + equationOfTime e + 4 * longitude) 1440;
          trueSolarTime = (if tst0 < 0 then tst0 + 1440 else tst0);
          ha0 = trueSolarTime / 4 - 180;
          hourAngle = (if ha0 < - 180 then ha0 + 360 else ha0);
          latitudeRad = deg2rad latitude;
          declinationRad = deg2rad (declination e);
          hourAngleRad = deg2rad hourAngle
      in rnd (rnd (rnd (sin latitudeRad) * rnd (sin declinationRad)) +
              rnd (rnd (rnd (cos latitudeRad) * rnd (cos declinationRad))
                     * rnd (cos hourAngleRad))))"

definition solarPosition :: "(real \<Rightarrow> real) \<Rightarrow> real \<Rightarrow> real \<Rightarrow> int \<Rightarrow> SolarPosition" where
  "solarPosition rnd latitude longitude dateUtc =
     (let T = jc (toJulianDate dateUtc);
          e = solarDeclinationAndEoT T;
          utcMinutes = utcMinutesOfDay dateUtc;
          tstSum = utcMinutes + equationOfTime e + 4 * longitude
      in if double_overflows (4 * longitude) \<or> double_overflows tstSum then
           \<lparr>declination = declination e, equationOfTime = equationOfTime e,
            altitude = NaN, azimuth = NaN\<rparr>
         else
           (let tst0 = js_rem tstSum 1440;
                trueSolarTime = (if tst0 < 0 then tst0 + 1440 else tst0);
                ha0 = trueSolarTime / 4 - 180;
                hourAngle = (if ha0 < - 180 then ha0 + 360 else ha0);
                latitudeRad = deg2rad latitude;
                declinationRad = deg2rad (declination e);
                hourAngleRad = deg2rad hourAngle;
                cosZenith =
                  rnd (rnd (rnd (sin latitudeRad) * rnd (sin declinationRad)) +
                       rnd (rnd (rnd (cos latitudeRad) * rnd (cos declinationRad))
                              * rnd (cos hourAngleRad)));
                zenith = rad2deg (arccos (clamp cosZenith (- 1) 1));
                alt = 90 - zenith;
                az = normalizeDegrees
                       (rad2deg (js_atan2 (sin hourAngleRad)
                                   (cos hourAngleRad * sin latitudeRad
                                      - tan declinationRad * cos latitudeRad))
                        + 180)
            in \<lparr>declination = declination e, equationOfTime = equationOfTime e,
                altitude = Finite alt, azimuth = Finite az\<rparr>))"

section \<open>EventSolver\<close>

datatype Status = Normal | PolarDay | PolarNight

record SunEventTimes =
  sunriseMinutes :: "jsnum option"
  sunsetMinutes :: "jsnum option"
  solarNoonMinutes :: "jsnum option"
  daylightMinutes :: "jsnum option"
  status :: Status

record SunEventOptions =
  sunAltitude :: "real option"

text \<open>The first lines of \<open>sunriseSunset\<close>, \<open>twilightBand\<close> and \<open>getUtcDateFromLocal\<close>
  are the same: the date text is split at \<open>-\<close>, the first three pieces are parsed as decimal
  integers, and the guard rejects the text unless all three are finite. \<open>parseDate\<close> is
  \<open>None\<close> exactly when that guard fires.\<close>

definition parseDate :: "string \<Rightarrow> (int \<times> int \<times> int) option" where
  "parseDate dateString =
     (let parts = split_str CHR ''-'' dateString;
          year = parseInt10 (nth_opt parts 0);
          month = parseInt10 (nth_opt parts 1);
          day = parseInt10 (nth_opt parts 2)
      in if \<not> Number_isFinite year \<or> \<not> Number_isFinite month \<or> \<not> Number_isFinite day then None
         else (case (year, month, day) of
                 (Some y, Some m, Some d) \<Rightarrow> Some (y, m, d)
               | _ \<Rightarrow> None))"

text \<open>An invalid \<open>Date\<close> (a date beyond the representable range) has the time value
  \<open>NaN\<close>: every number derived from it is \<open>NaN\<close>, both comparisons of \<open>cosH\<close> are false,
  and the last \<open>return\<close> is reached with \<open>NaN\<close> in every field.

  The quotient in \<open>cosH\<close> has the divisor \<open>cos latRad * cos declRad\<close>, which is zero in
  exact arithmetic only at the poles (latitude 90 or -90). There the source divides by
  zero, with an infinite or \<open>NaN\<close> result, whereas the quotient of HOL is 0; away from the
  poles the two agree. The properties stated below that mention \<open>cosH\<close> hold for every
  value of it, and the concrete inputs used below are away from the poles.\<close>

definition sunriseSunset :: "real \<Rightarrow> real \<Rightarrow> string \<Rightarrow> real \<Rightarrow> SunEventOptions \<Rightarrow> SunEventTimes" where
  "sunriseSunset latitude longitude dateString tzOffsetMinutes options =
     (case parseDate dateString of
        None \<Rightarrow>
          \<lparr>sunriseMinutes = None, sunsetMinutes = None, solarNoonMinutes = None,
           daylightMinutes = None, status = Normal\<rparr>
      | Some (year, month, day) \<Rightarrow>
          (case Date_UTC year (month - 1) day of
             None \<Rightarrow>
               \<lparr>sunriseMinutes = Some NaN, sunsetMinutes = Some NaN, solarNoonMinutes = Some NaN,
                daylightMinutes = Some NaN, status = Normal\<rparr>
           | Some dateUtc \<Rightarrow>
               (let T = jc (toJulianDate dateUtc);
                    e = solarDeclinationAndEoT T;
                    solarNoonUtcMinutes = 720 - 4 * longitude - equationOfTime e;
                    solarNoonMinutes = solarNoonUtcMinutes + tzOffsetMinutes;
                    latRad = deg2rad latitude;
                    declRad = deg2rad (declination e);
                    zenith = 90 - (case sunAltitude options of Some a \<Rightarrow> a | None \<Rightarrow> - 0.833);
                    cosH = cos (deg2rad zenith) / (cos latRad * cos declRad) - tan latRad * tan declRad
                in if cosH > 1 then
                     \<lparr>sunriseMinutes = None, sunsetMinutes = None,
                      solarNoonMinutes = Some (Finite solarNoonMinutes),
                      daylightMinutes = Some (Finite 0), status = PolarNight\<rparr>
                   else if cosH < - 1 then
                     \<lparr>sunriseMinutes = None, sunsetMinutes = None,
                      solarNoonMinutes = Some (Finite solarNoonMinutes),
                      daylightMinutes = Some (Finite 1440), status = PolarDay\<rparr>
                   else
                     (let hourAngle = rad2deg (arccos (clamp cosH (- 1) 1));
                          sunriseUtcMinutes = solarNoonUtcMinutes - 4 * hourAngle;
                          sunsetUtcMinutes = solarNoonUtcMinutes + 4 * hourAngle
                      in \<lparr>sunriseMinutes = Some (Finite (sunriseUtcMinutes + tzOffsetMinutes)),
                          sunsetMinutes = Some (Finite (sunsetUtcMinutes + tzOffsetMinutes)),
                          solarNoonMinutes = Some (Finite solarNoonMinutes),
                          daylightMinutes = Some (Finite (8 * hourAngle)),
                          status = Normal\<rparr>))))"

record TwilightBand =
  band_start :: "jsnum option"
  band_end :: "jsnum option"

record TwilightTimes =
  civil :: TwilightBand
  nautical :: TwilightBand
  astronomical :: TwilightBand

definition twilightBand :: "real \<Rightarrow> real \<Rightarrow> string \<Rightarrow> real \<Rightarrow> real \<Rightarrow> TwilightBand" where
  "twilightBand latitude longitude dateString tzOffsetMinutes sunAlt =
     (case parseDate dateString of
        None \<Rightarrow> \<lparr>band_start = None, band_end = None\<rparr>
      | Some (year, month, day) \<Rightarrow>
          (case Date_UTC year (month - 1) day of
             None \<Rightarrow> \<lparr>band_start = Some NaN, band_end = Some NaN\<rparr>
           | Some dateUtc \<Rightarrow>
               (let T = jc (toJulianDate dateUtc);
                    e = solarDeclinationAndEoT T;
                    solarNoonUtcMinutes = 720 - 4 * longitude - equationOfTime e;
                    latRad = deg2rad latitude;
                    declRad = deg2rad (declination e);
                    zenith = 90 - sunAlt;
                    cosH = cos (deg2rad zenith) / (cos latRad * cos declRad) - tan latRad * tan declRad
                in if cosH > 1 then \<lparr>band_start = None, band_end = None\<rparr>
                   else if cosH < - 1 then \<lparr>band_start = None, band_end = None\<rparr>
                   else
                     (let hourAngle = rad2deg (arccos (clamp cosH (- 1) 1));
                          startUtcMinutes = solarNoonUtcMinutes - 4 * hourAngle;
                          endUtcMinutes = solarNoonUtcMinutes + 4 * hourAngle
                      in \<lparr>band_start = Some (Finite (startUtcMinutes + tzOffsetMinutes)),
                          band_end = Some (Finite (endUtcMinutes + tzOffsetMinutes))\<rparr>))))"

definition twilightTimes :: "real \<Rightarrow> real \<Rightarrow> string \<Rightarrow> real \<Rightarrow> TwilightTimes" where
  "twilightTimes latitude longitude dateString tzOffsetMinutes =
     \<lparr>civil = twilightBand latitude longitude dateString tzOffsetMinutes (- 6),
      nautical = twilightBand latitude longitude dateString tzOffsetMinutes (- 12),
      astronomical = twilightBand latitude longitude dateString tzOffsetMinutes (- 18)\<rparr>"

section \<open>TimeConversion\<close>

text \<open>The result of \<open>getUtcDateFromLocal\<close> is \<open>null\<close> (\<open>None\<close>) or a \<open>Date\<close>, which is
  invalid (\<open>Some None\<close>) or has a time value.\<close>

definition getUtcDateFromLocal :: "string \<Rightarrow> real \<Rightarrow> real \<Rightarrow> int option option" where
  "getUtcDateFromLocal dateString minutesLocal offsetMinutes =
     (case parseDate dateString of
        None \<Rightarrow> None
      | Some (year, month, day) \<Rightarrow>
          (case Date_UTC year (month - 1) day of
             None \<Rightarrow> None
           | Some baseUtc \<Rightarrow>
               (let utcMinutes = minutesLocal - offsetMinutes;
                    utcMs = real_of_int baseUtc + utcMinutes * 60 * 1000
                in Some (new_Date utcMs))))"

section \<open>WindowDetector\<close>

text \<open>The samples are \<open>{minute, altitude}\<close> and the windows \<open>{start, end}\<close>. The loop of
  \<open>findWindows\<close> carries \<open>(windows, start, lastMinute)\<close>; \<open>findWindows_final\<close> is the
  push after the loop.\<close>

record AltitudeSample =
  minute :: real
  point_altitude :: real

record SolarWindow =
  win_start :: real
  win_end :: real




definition inRange :: "real \<Rightarrow> real \<Rightarrow> AltitudeSample \<Rightarrow> bool" where
  "inRange minAlt maxAlt point = (point_altitude point \<ge> minAlt \<and> point_altitude point \<le> maxAlt)"

type_synonym scan_state = "SolarWindow list \<times> real option \<times> real option"

fun findWindows_loop :: "real \<Rightarrow> real \<Rightarrow> AltitudeSample list \<Rightarrow> scan_state \<Rightarrow> scan_state" where
  "findWindows_loop minAlt maxAlt [] st = st"
| "findWindows_loop minAlt maxAlt (point # rest) (windows, start, lastMinute) =
     (if inRange minAlt maxAlt point then
        findWindows_loop minAlt maxAlt rest
          (windows, (case start of None \<Rightarrow> Some (minute point) | Some s \<Rightarrow> Some s), Some (minute point))
      else (case start of
              Some s \<Rightarrow>
                findWindows_loop minAlt maxAlt rest
                  (windows @ [\<lparr>win_start = s, win_end = (case lastMinute of Some l \<Rightarrow> l | None \<Rightarrow> s)\<rparr>],
                   None, None)
            | None \<Rightarrow> findWindows_loop minAlt maxAlt rest (windows, start, lastMinute)))"

definition findWindows_final :: "scan_state \<Rightarrow> SolarWindow list" where
  "findWindows_final st =
     (case st of
        (windows, Some s, lastMinute) \<Rightarrow>
          windows @ [\<lparr>win_start = s, win_end = (case lastMinute of Some l \<Rightarrow> l | None \<Rightarrow> s)\<rparr>]
      | (windows, None, lastMinute) \<Rightarrow> windows)"

definition findWindows :: "AltitudeSample list \<Rightarrow> real \<Rightarrow> real \<Rightarrow> SolarWindow list" where
  "findWindows series minAlt maxAlt =
     findWindows_final (findWindows_loop minAlt maxAlt series ([], None, None))"


section \<open>TimezoneParser\<close>

record TimezoneParseResult =
  minutes :: int
  isValid :: bool

text \<open>TZ_PATTERN = /^([+-])?(\d{1,2})(?::?(\d{2}))?$/\<close>

definition match_minutes :: "string \<Rightarrow> string option option" where
  "match_minutes r =
     (let r' = (case r of c # t \<Rightarrow> if c = CHR '':'' then t else r | [] \<Rightarrow> r)
      in if length r' = 2 \<and> list_all is_digit r' then Some (Some r')
         else if r = [] then Some None
         else None)"

definition match_hours :: "nat \<Rightarrow> string \<Rightarrow> (string \<times> string option) option" where
  "match_hours n t =
     (if n \<le> length t \<and> list_all is_digit (take n t)
      then (case match_minutes (drop n t) of
              Some mm \<Rightarrow> Some (take n t, mm)
            | None \<Rightarrow> None)
      else None)"

definition match_TZ_PATTERN :: "string \<Rightarrow> (char option \<times> string \<times> string option) option" where
  "match_TZ_PATTERN s =
     (let (sg, t) = (case s of
                       c # r \<Rightarrow> if c = CHR ''+'' \<or> c = CHR ''-'' then (Some c, r) else (None, s)
                     | [] \<Rightarrow> (None, s))
      in case match_hours 2 t of
           Some (hh, mm) \<Rightarrow> Some (sg, hh, mm)
         | None \<Rightarrow> (case match_hours 1 t of
                       Some (hh, mm) \<Rightarrow> Some (sg, hh, mm)
                     | None \<Rightarrow> None))"

definition tz_cleaned :: "string \<Rightarrow> string" where
  "tz_cleaned raw = strip_prefix ''GMT'' (strip_prefix ''UTC'' raw)"

definition parseTimezoneOffset :: "string \<Rightarrow> TimezoneParseResult" where
  "parseTimezoneOffset input =
     (let raw = toUpperCase (trim input)
      in if raw = [] then \<lparr>minutes = 0, isValid = False\<rparr>
         else if raw = ''Z'' \<or> raw = ''UTC'' \<or> raw = ''GMT'' then \<lparr>minutes = 0, isValid = True\<rparr>
         else
           (let cleaned = tz_cleaned raw
            in case match_TZ_PATTERN cleaned of
                 None \<Rightarrow> \<lparr>minutes = 0, isValid = False\<rparr>
               | Some (m1, m2, m3) \<Rightarrow>
                   (let sgn = (if m1 = Some CHR ''-'' then - 1 else 1);
                        hours = parseInt10 (Some m2);
                        mins = parseInt10 (Some (case m3 of Some d \<Rightarrow> d | None \<Rightarrow> ''0''))
                    in case (hours, mins) of
                         (Some h, Some m) \<Rightarrow>
                           if h > 14 \<or> m \<ge> 60 then \<lparr>minutes = 0, isValid = False\<rparr>
                           else \<lparr>minutes = sgn * (h * 60 + m), isValid = True\<rparr>
                       | _ \<Rightarrow> \<lparr>minutes = 0, isValid = False\<rparr>)))"

section \<open>Notions used to state the properties\<close>

text \<open>The cosine of the hour angle, \<open>cosH\<close> in \<open>sunriseSunset\<close> and \<open>twilightBand\<close>, as a
  function of latitude, declination and target altitude.\<close>

definition hourAngleCos :: "real \<Rightarrow> real \<Rightarrow> real \<Rightarrow> real" where
  "hourAngleCos latitude decl sunAlt =
     cos (deg2rad (90 - sunAlt)) / (cos (deg2rad latitude) * cos (deg2rad decl))
       - tan (deg2rad latitude) * tan (deg2rad decl)"




section \<open>Auxiliary notions of the proofs\<close>


text \<open>The invariant of the scan for order and disjointness: the closed windows are
  well-formed and ordered, and an open window starts after all of them.\<close>

definition win_ok :: "real set \<Rightarrow> SolarWindow \<Rightarrow> bool" where
  "win_ok S w = (win_start w \<le> win_end w \<and> win_start w \<in> S \<and> win_end w \<in> S)"

definition state_ok :: "real set \<Rightarrow> scan_state \<Rightarrow> bool" where
  "state_ok S st =
     (case st of (ws, start, lm) \<Rightarrow>
        (\<forall>w \<in> set ws. win_ok S w) \<and> sorted_wrt (\<lambda>w w'. win_end w < win_start w') ws \<and>
        (case start of
           None \<Rightarrow> True
         | Some s \<Rightarrow> \<exists>l. lm = Some l \<and> s \<le> l \<and> s \<in> S \<and> l \<in> S \<and> (\<forall>w \<in> set ws. win_end w < s)))"

definition state_below :: "scan_state \<Rightarrow> real \<Rightarrow> bool" where
  "state_below st m =
     (case st of (ws, start, lm) \<Rightarrow> (\<forall>w \<in> set ws. win_end w < m) \<and> (\<forall>l. lm = Some l \<longrightarrow> l < m))"




text \<open>A day sampled every five minutes whose altitude rises to one maximum and falls.\<close>

definition example_day :: "AltitudeSample list" where
  "example_day =
     [\<lparr>minute = 0, point_altitude = - 10\<rparr>, \<lparr>minute = 5, point_altitude = - 4\<rparr>,
      \<lparr>minute = 10, point_altitude = - 2\<rparr>, \<lparr>minute = 15, point_altitude = 2\<rparr>,
      \<lparr>minute = 20, point_altitude = 5\<rparr>, \<lparr>minute = 25, point_altitude = 12\<rparr>,
      \<lparr>minute = 30, point_altitude = 4\<rparr>, \<lparr>minute = 35, point_altitude = - 3\<rparr>,
      \<lparr>minute = 40, point_altitude = - 10\<rparr>]"

text \<open>The place where the centre of the sun is at the zenith on 2024-06-21 at 12:00
  UTC, the time value 1718971200000: the latitude of the declination and the longitude of
  the solar noon.\<close>

definition zenith_latitude :: real where
  "zenith_latitude = declination (solarDeclinationAndEoT (jc (toJulianDate 1718971200000)))"

definition zenith_longitude :: real where
  "zenith_longitude =
     (720 - utcMinutesOfDay 1718971200000
        - equationOfTime (solarDeclinationAndEoT (jc (toJulianDate 1718971200000)))) / 4"

text \<open>The characters of a text that the offset pattern matches.\<close>

definition tz_char :: "char \<Rightarrow> bool" where
  "tz_char c = (is_digit c \<or> c = CHR ''+'' \<or> c = CHR ''-'' \<or> c = CHR '':'')"

text \<open>The event times as a function of the declination and the equation of time: what
  \<open>sunriseSunset\<close> computes once it has them.\<close>

definition solveEvents ::
  "SolarDeclinationResult \<Rightarrow> real \<Rightarrow> real \<Rightarrow> real \<Rightarrow> SunEventOptions \<Rightarrow> SunEventTimes" where
  "solveEvents e latitude longitude tzOffsetMinutes options =
     (let solarNoonUtcMinutes = 720 - 4 * longitude - equationOfTime e;
          solarNoonMinutes = solarNoonUtcMinutes + tzOffsetMinutes;
          cosH = hourAngleCos latitude (declination e)
                   (case sunAltitude options of Some a \<Rightarrow> a | None \<Rightarrow> - 0.833)
      in if cosH > 1 then
           \<lparr>sunriseMinutes = None, sunsetMinutes = None,
            solarNoonMinutes = Some (Finite solarNoonMinutes),
            daylightMinutes = Some (Finite 0), status = PolarNight\<rparr>
         else if cosH < - 1 then
           \<lparr>sunriseMinutes = None, sunsetMinutes = None,
            solarNoonMinutes = Some (Finite solarNoonMinutes),
            daylightMinutes = Some (Finite 1440), status = PolarDay\<rparr>
         else
           (let hourAngle = rad2deg (arccos (clamp cosH (- 1) 1))
            in \<lparr>sunriseMinutes = Some (Finite (solarNoonUtcMinutes - 4 * hourAngle + tzOffsetMinutes)),
                sunsetMinutes = Some (Finite (solarNoonUtcMinutes + 4 * hourAngle + tzOffsetMinutes)),
                solarNoonMinutes = Some (Finite solarNoonMinutes),
                daylightMinutes = Some (Finite (8 * hourAngle)),
                status = Normal\<rparr>))"

text \<open>The intermediate quantities of \<open>solarDeclinationAndEoT\<close> that determine the
  declination.\<close>

definition geomMeanLong_raw :: "real \<Rightarrow> real" where
  "geomMeanLong_raw T = 280.46646 + T * (36000.76983 + T * 0.0003032)"

definition geomMeanAnomaly_of :: "real \<Rightarrow> real" where
  "geomMeanAnomaly_of T = 357.52911 + T * (35999.05029 - 0.0001537 * T)"

definition sunEqCenter_of :: "real \<Rightarrow> real" where
  "sunEqCenter_of T =
     sin (deg2rad (geomMeanAnomaly_of T)) * (1.914602 - T * (0.004817 + 0.000014 * T)) +
     sin (deg2rad (2 * geomMeanAnomaly_of T)) * (0.019993 - 0.000101 * T) +
     sin (deg2rad (3 * geomMeanAnomaly_of T)) * 0.000289"

definition sunAppLong_of :: "real \<Rightarrow> real" where
  "sunAppLong_of T =
     normalizeDegrees (geomMeanLong_raw T) + sunEqCenter_of T - 0.00569
       - 0.00478 * sin (deg2rad (125.04 - 1934.136 * T))"

definition obliqCorr_of :: "real \<Rightarrow> real" where
  "obliqCorr_of T =
     23 + (26 + (21.448 - T * (46.815 + T * (0.00059 - T * 0.001813))) / 60) / 60
       + 0.00256 * cos (deg2rad (125.04 - 1934.136 * T))"

section \<open>Lemmas on the remainder\<close>

lemma floor_rem_bounds:
  fixes a b :: real
  assumes "0 < b"
  shows "0 \<le> a - b * of_int \<lfloor>a / b\<rfloor>" and "a - b * of_int \<lfloor>a / b\<rfloor> < b"
proof -
  have e: "b * (a / b) = a" using assms by simp
  have "b * of_int \<lfloor>a / b\<rfloor> \<le> b * (a / b)"
    by (rule mult_left_mono) (use assms in simp_all)
  then show "0 \<le> a - b * of_int \<lfloor>a / b\<rfloor>" using e by simp
  have "a / b < of_int \<lfloor>a / b\<rfloor> + 1" by linarith
  then have "b * (a / b) < b * (of_int \<lfloor>a / b\<rfloor> + 1)"
    using assms by (simp only: mult_less_cancel_left_pos)
  then show "a - b * of_int \<lfloor>a / b\<rfloor> < b" using e by (simp add: algebra_simps)
qed

text \<open>With the correction of a negative remainder, \<open>%\<close> becomes the floor remainder.\<close>

lemma js_rem_corrected:
  fixes a b :: real
  assumes "0 < b"
  shows "(if js_rem a b < 0 then js_rem a b + b else js_rem a b) = a - b * of_int \<lfloor>a / b\<rfloor>"
proof (cases "0 \<le> a")
  case True
  then have "0 \<le> a / b" using assms by simp
  then have "js_rem a b = a - b * of_int \<lfloor>a / b\<rfloor>" by (simp add: js_rem_def js_trunc_def)
  then show ?thesis using floor_rem_bounds(1)[OF assms, of a] by simp
next
  case False
  then have "a / b < 0" using assms by (simp add: divide_neg_pos)
  then have r: "js_rem a b = a - b * of_int \<lceil>a / b\<rceil>" by (simp add: js_rem_def js_trunc_def)
  show ?thesis
  proof (cases "a / b = of_int \<lfloor>a / b\<rfloor>")
    case True
    then have "\<lceil>a / b\<rceil> = \<lfloor>a / b\<rfloor>" by (simp add: ceiling_altdef)
    then show ?thesis using r floor_rem_bounds(1)[OF assms, of a] by simp
  next
    case False
    then have c: "\<lceil>a / b\<rceil> = \<lfloor>a / b\<rfloor> + 1" by (simp add: ceiling_altdef)
    have "a - b * of_int \<lfloor>a / b\<rfloor> < b" by (rule floor_rem_bounds(2)[OF assms])
    then have "js_rem a b < 0" using r c by (simp add: algebra_simps)
    then show ?thesis using r c by (simp add: algebra_simps)
  qed
qed

text \<open>Where the sum in \<open>normalizeDegrees\<close> is not rounded, the result is the floor
  remainder; a non-negative angle needs no sum.\<close>

lemma normalizeDegrees_exact:
  assumes "js_rem a 360 < 0 \<longrightarrow> round_double (js_rem a 360 + 360) = js_rem a 360 + 360"
  shows "normalizeDegrees a = a - 360 * of_int \<lfloor>a / 360\<rfloor>"
  using js_rem_corrected[of 360 a] assms by (auto simp: normalizeDegrees_def Let_def)

lemma js_rem_nonneg: "0 \<le> a \<Longrightarrow> 0 \<le> js_rem a 360"
proof -
  assume "0 \<le> a"
  then have "js_rem a 360 = a - 360 * of_int \<lfloor>a / 360\<rfloor>"
    by (simp add: js_rem_def js_trunc_def)
  then show ?thesis using floor_rem_bounds(1)[of 360 a] by simp
qed

lemma normalizeDegrees_nonneg:
  assumes "0 \<le> a"
  shows "normalizeDegrees a = a - 360 * of_int \<lfloor>a / 360\<rfloor>"
    and "0 \<le> normalizeDegrees a" and "normalizeDegrees a < 360"
proof -
  have "\<not> js_rem a 360 < 0" using js_rem_nonneg[OF assms] by simp
  then show e: "normalizeDegrees a = a - 360 * of_int \<lfloor>a / 360\<rfloor>"
    by (intro normalizeDegrees_exact) simp
  show "0 \<le> normalizeDegrees a" "normalizeDegrees a < 360"
    using floor_rem_bounds[of 360 a] by (simp_all add: e)
qed

section \<open>Lemmas on the rounding\<close>













lemma normalizeDegrees_360: "normalizeDegrees 360 = 0"
  by (simp add: normalizeDegrees_def js_rem_def js_trunc_def)







section \<open>Lemmas on the window scan\<close>

subsection \<open>Counting the windows\<close>


















subsection \<open>Order and disjointness\<close>

lemma loop_state_ok:
  "state_ok S st \<Longrightarrow> sorted_wrt (<) (map minute ps) \<Longrightarrow>
   \<forall>p \<in> set ps. state_below st (minute p) \<Longrightarrow>
   \<forall>p \<in> set ps. inRange lo hi p \<longrightarrow> minute p \<in> S \<Longrightarrow>
   state_ok S (findWindows_loop lo hi ps st)"
proof (induction ps arbitrary: st)
  case Nil
  then show ?case by simp
next
  case (Cons p ps)
  obtain ws start lm where st: "st = (ws, start, lm)" by (cases st)
  have srt: "sorted_wrt (<) (map minute ps)" and lt: "\<forall>q \<in> set ps. minute p < minute q"
    using Cons.prems(2) by auto
  have rng: "\<forall>q \<in> set ps. inRange lo hi q \<longrightarrow> minute q \<in> S" using Cons.prems(4) by simp
  have below_p: "state_below st (minute p)" and below_ps: "\<forall>q \<in> set ps. state_below st (minute q)"
    using Cons.prems(3) by auto
  show ?case
  proof (cases "inRange lo hi p")
    case True
    then have mS: "minute p \<in> S" using Cons.prems(4) by simp
    let ?st' = "(ws, (case start of None \<Rightarrow> Some (minute p) | Some s \<Rightarrow> Some s), Some (minute p))"
    have ok: "state_ok S ?st'"
      using Cons.prems(1) below_p mS unfolding st state_ok_def state_below_def
      by (cases start) auto
    have bl: "\<forall>q \<in> set ps. state_below ?st' (minute q)"
      using below_ps lt unfolding st state_below_def by auto
    have "findWindows_loop lo hi (p # ps) st = findWindows_loop lo hi ps ?st'"
      using True by (simp add: st)
    then show ?thesis using Cons.IH[OF ok srt bl rng] by simp
  next
    case False
    show ?thesis
    proof (cases start)
      case None
      then have "findWindows_loop lo hi (p # ps) st = findWindows_loop lo hi ps st"
        using False by (simp add: st)
      then show ?thesis using Cons.IH[OF Cons.prems(1) srt below_ps rng] by simp
    next
      case (Some s)
      from Cons.prems(1) obtain l where l: "lm = Some l" "s \<le> l" "s \<in> S" "l \<in> S"
        "\<forall>w \<in> set ws. win_end w < s"
        unfolding st state_ok_def Some by auto
      let ?st' = "(ws @ [\<lparr>win_start = s, win_end = l\<rparr>], None :: real option, None :: real option)"
      have ok: "state_ok S ?st'"
        using Cons.prems(1) l unfolding st state_ok_def Some
        by (auto simp: sorted_wrt_append win_ok_def)
      have bl: "\<forall>q \<in> set ps. state_below ?st' (minute q)"
        using below_ps l(1) unfolding st state_below_def by auto
      have "findWindows_loop lo hi (p # ps) st = findWindows_loop lo hi ps ?st'"
        using False by (simp add: st Some l(1))
      then show ?thesis using Cons.IH[OF ok srt bl rng] by simp
    qed
  qed
qed

lemma final_state_ok:
  assumes "state_ok S st"
  shows "(\<forall>w \<in> set (findWindows_final st). win_ok S w)
       \<and> sorted_wrt (\<lambda>w w'. win_end w < win_start w') (findWindows_final st)"
proof -
  obtain ws start lm where st: "st = (ws, start, lm)" by (cases st)
  show ?thesis
    using assms unfolding st state_ok_def findWindows_final_def
    by (cases start) (auto simp: sorted_wrt_append win_ok_def)
qed

lemma findWindows_ok:
  assumes "sorted_wrt (<) (map minute series)"
  shows "(\<forall>w \<in> set (findWindows series lo hi).
            win_ok {minute p | p. p \<in> set series \<and> inRange lo hi p} w)
       \<and> sorted_wrt (\<lambda>w w'. win_end w < win_start w') (findWindows series lo hi)"
  unfolding findWindows_def
  by (rule final_state_ok, rule loop_state_ok[OF _ assms])
     (auto simp: state_ok_def state_below_def)

subsection \<open>Contiguity and maximality\<close>















section \<open>Lemmas on the timezone parser\<close>

lemma is_digit_facts:
  assumes "is_digit c"
  shows "0 \<le> digit_val c" "digit_val c \<le> 9" "\<not> is_ws c" "c \<noteq> CHR ''-''" "c \<noteq> CHR ''+''"
    "c \<noteq> CHR '':''"
  using assms by (auto simp: is_digit_def digit_val_def is_ws_def)

lemma foldl_digits_nonneg:
  "0 \<le> acc \<Longrightarrow> list_all is_digit ds \<Longrightarrow> 0 \<le> foldl (\<lambda>acc c. 10 * acc + digit_val c) acc ds"
proof (induction ds arbitrary: acc)
  case Nil
  then show ?case by simp
next
  case (Cons c ds)
  then have "0 \<le> 10 * acc + digit_val c" using is_digit_facts(1)[of c] by simp
  with Cons show ?case by simp
qed

lemma digits_value_nonneg: "list_all is_digit ds \<Longrightarrow> 0 \<le> digits_value ds"
  by (simp add: digits_value_def foldl_digits_nonneg)

lemma parseInt10_digits:
  assumes "ds \<noteq> []" and "list_all is_digit ds"
  shows "parseInt10 (Some ds) = Some (digits_value ds)"
proof -
  from assms obtain c r where ds: "ds = c # r" and c: "is_digit c" by (cases ds) auto
  have tw: "takeWhile is_digit ds = ds" using assms(2) by (simp add: takeWhile_eq_all_conv list_all_iff)
  have "dropWhile is_ws ds = ds" using is_digit_facts(3)[OF c] by (simp add: ds)
  then show ?thesis
    using is_digit_facts(4,5)[OF c] tw assms(1) by (simp add: parseInt10_def Let_def ds)
qed

lemma match_minutes_Some:
  "match_minutes r = Some (Some d) \<Longrightarrow> d \<noteq> [] \<and> list_all is_digit d"
  by (auto simp: match_minutes_def Let_def split: if_splits)

lemma match_hours_Some:
  assumes "match_hours n t = Some (hh, mm)" and "0 < n"
  shows "hh \<noteq> [] \<and> list_all is_digit hh \<and> (\<forall>d. mm = Some d \<longrightarrow> d \<noteq> [] \<and> list_all is_digit d)"
  using assms match_minutes_Some[of "drop n t"]
  by (auto simp: match_hours_def split: if_splits option.splits)

lemma match_TZ_PATTERN_Some:
  assumes "match_TZ_PATTERN s = Some (sg, hh, mm)"
  shows "hh \<noteq> [] \<and> list_all is_digit hh \<and> (\<forall>d. mm = Some d \<longrightarrow> d \<noteq> [] \<and> list_all is_digit d)"
proof -
  from assms obtain n t where "match_hours n t = Some (hh, mm)" "0 < n"
    by (auto simp: match_TZ_PATTERN_def Let_def split: prod.splits option.splits) 
  then show ?thesis by (rule match_hours_Some)
qed

lemma match_fields:
  assumes "match_TZ_PATTERN s = Some (sg, hh, mm)"
  shows "parseInt10 (Some hh) = Some (digits_value hh)"
    and "parseInt10 (Some (case mm of Some d \<Rightarrow> d | None \<Rightarrow> ''0''))
           = Some (case mm of Some d \<Rightarrow> digits_value d | None \<Rightarrow> 0)"
    and "0 \<le> digits_value hh"
    and "0 \<le> (case mm of Some d \<Rightarrow> digits_value d | None \<Rightarrow> 0)"
proof -
  note m = match_TZ_PATTERN_Some[OF assms]
  show "parseInt10 (Some hh) = Some (digits_value hh)" using m by (simp add: parseInt10_digits)
  show "0 \<le> digits_value hh" using m by (simp add: digits_value_nonneg)
  have z: "parseInt10 (Some ''0'') = Some 0"
    by (simp add: parseInt10_def is_ws_def is_digit_def digits_value_def digit_val_def)
  show "parseInt10 (Some (case mm of Some d \<Rightarrow> d | None \<Rightarrow> ''0''))
           = Some (case mm of Some d \<Rightarrow> digits_value d | None \<Rightarrow> 0)"
    using m z by (cases mm) (simp_all add: parseInt10_digits)
  show "0 \<le> (case mm of Some d \<Rightarrow> digits_value d | None \<Rightarrow> 0)"
    using m by (cases mm) (simp_all add: digits_value_nonneg)
qed

text \<open>The result of the parser once the pattern has matched.\<close>

lemma parseTimezoneOffset_matched:
  assumes "match_TZ_PATTERN (tz_cleaned (toUpperCase (trim input))) = Some (sg, hh, mm)"
  shows "parseTimezoneOffset input =
     (let h = digits_value hh; m = (case mm of Some d \<Rightarrow> digits_value d | None \<Rightarrow> 0)
      in if h > 14 \<or> m \<ge> 60 then \<lparr>minutes = 0, isValid = False\<rparr>
         else \<lparr>minutes = (if sg = Some CHR ''-'' then - 1 else 1) * (h * 60 + m), isValid = True\<rparr>)"
proof -
  let ?raw = "toUpperCase (trim input)"
  have nomatch: "match_TZ_PATTERN [] = None"
    by (simp add: match_TZ_PATTERN_def match_hours_def)
  have c: "tz_cleaned [] = []" "tz_cleaned ''Z'' = ''Z''" "tz_cleaned ''UTC'' = []" "tz_cleaned ''GMT'' = []"
    by (simp_all add: tz_cleaned_def strip_prefix_def)
  have z: "match_TZ_PATTERN ''Z'' = None"
    by (simp add: match_TZ_PATTERN_def match_hours_def is_digit_def)
  have r: "?raw \<noteq> []" "?raw \<noteq> ''Z''" "?raw \<noteq> ''UTC''" "?raw \<noteq> ''GMT''"
    using assms nomatch c z by auto
  show ?thesis
    using r assms match_fields[OF assms]
    by (simp add: parseTimezoneOffset_def Let_def)
qed

subsection \<open>Prefixes and offsets without a colon\<close>

lemma tz_char_facts:
  assumes "tz_char c"
  shows "\<not> is_ws c" "c \<noteq> CHR ''U''" "c \<noteq> CHR ''G''" "c \<noteq> CHR ''Z''"
    "\<not> (97 \<le> (of_char c :: nat) \<and> (of_char c :: nat) \<le> 122)"
  using assms by (auto simp: tz_char_def is_digit_def is_ws_def)

lemma match_minutes_chars: "match_minutes r = Some mm \<Longrightarrow> list_all tz_char r"
  by (auto simp: match_minutes_def Let_def tz_char_def list_all_iff split: if_splits list.splits)

lemma match_hours_chars:
  assumes "match_hours n t = Some x" and "0 < n"
  shows "t \<noteq> [] \<and> list_all tz_char t"
proof -
  from assms have n: "n \<le> length t" and d: "list_all is_digit (take n t)"
    and m: "match_minutes (drop n t) \<noteq> None"
    by (auto simp: match_hours_def split: if_splits option.splits)
  from m have "list_all tz_char (drop n t)" using match_minutes_chars by auto
  moreover from d have "list_all tz_char (take n t)" by (auto simp: list_all_iff tz_char_def)
  ultimately have "list_all tz_char (take n t @ drop n t)" by (simp only: list_all_append)
  then show ?thesis using n assms(2) by auto
qed

lemma match_TZ_PATTERN_chars:
  assumes "match_TZ_PATTERN s = Some x"
  shows "s \<noteq> [] \<and> list_all tz_char s"
proof -
  have key: "t \<noteq> [] \<and> list_all tz_char t"
    if "match_hours 2 t \<noteq> None \<or> match_hours 1 t \<noteq> None" for t
    using that match_hours_chars[of 2 t] match_hours_chars[of 1 t] by auto
  show ?thesis
  proof (cases s)
    case Nil
    then show ?thesis using assms by (simp add: match_TZ_PATTERN_def match_hours_def)
  next
    case (Cons c r)
    show ?thesis
    proof (cases "c = CHR ''+'' \<or> c = CHR ''-''")
      case True
      then have "match_hours 2 r \<noteq> None \<or> match_hours 1 r \<noteq> None"
        using assms by (auto simp: match_TZ_PATTERN_def Cons split: option.splits)
      from key[OF this] True show ?thesis by (auto simp: Cons tz_char_def)
    next
      case False
      then have "match_hours 2 s \<noteq> None \<or> match_hours 1 s \<noteq> None"
        using assms by (auto simp: match_TZ_PATTERN_def Cons split: option.splits)
      from key[OF this] show ?thesis .
    qed
  qed
qed

lemma trim_id:
  assumes "s \<noteq> []" and "\<not> is_ws (hd s)" and "\<not> is_ws (last s)"
  shows "trim s = s"
proof -
  have 1: "dropWhile is_ws s = s" using assms(1,2) by (cases s) auto
  obtain x xs where r: "rev s = x # xs" using assms(1) by (cases "rev s") auto
  have "hd (rev s) = last s" using assms(1) by (simp add: hd_rev)
  then have "\<not> is_ws x" using assms(3) by (simp add: r)
  then have "dropWhile is_ws (x # xs) = x # xs" by simp
  then have 2: "dropWhile is_ws (rev s) = rev s" by (simp only: r)
  show ?thesis by (simp add: trim_def 1 2)
qed

lemma strip_prefix_same: "strip_prefix p (p @ s) = s"
  by (simp add: strip_prefix_def)

lemma toUpperCase_tz: "list_all tz_char s \<Longrightarrow> toUpperCase s = s"
  by (induction s) (auto simp: toUpperCase_def tz_char_facts(5))

lemma prefixed_cleaned:
  assumes "s \<noteq> []" and "list_all tz_char s"
  shows "tz_cleaned (toUpperCase (trim s)) = s"
    and "tz_cleaned (toUpperCase (trim (''UTC'' @ s))) = s"
    and "tz_cleaned (toUpperCase (trim (''GMT'' @ s))) = s"
proof -
  from assms obtain c r where s: "s = c # r" and c: "tz_char c" by (cases s) auto
  have l: "tz_char (last s)" using assms by (simp add: list_all_iff)
  have u: "toUpperCase s = s" using assms(2) by (rule toUpperCase_tz)
  have t0: "trim s = s" using assms(1) tz_char_facts(1)[OF c] tz_char_facts(1)[OF l]
    by (intro trim_id) (simp_all add: s)
  have t1: "trim (''UTC'' @ s) = ''UTC'' @ s" using assms(1) tz_char_facts(1)[OF l]
    by (intro trim_id) (simp_all add: is_ws_def)
  have t2: "trim (''GMT'' @ s) = ''GMT'' @ s" using assms(1) tz_char_facts(1)[OF l]
    by (intro trim_id) (simp_all add: is_ws_def)
  have up: "toUpperCase (''UTC'' @ s) = ''UTC'' @ s" "toUpperCase (''GMT'' @ s) = ''GMT'' @ s"
    using u by (simp_all add: toUpperCase_def)
  have ng: "strip_prefix ''GMT'' s = s" "strip_prefix ''UTC'' s = s"
    using tz_char_facts(2,3)[OF c] by (simp_all add: strip_prefix_def s)
  show "tz_cleaned (toUpperCase (trim s)) = s" by (simp add: t0 u tz_cleaned_def ng)
  show "tz_cleaned (toUpperCase (trim (''UTC'' @ s))) = s"
    by (simp only: t1 up tz_cleaned_def strip_prefix_same ng)
  have "strip_prefix ''UTC'' (''GMT'' @ s) = ''GMT'' @ s" by (simp add: strip_prefix_def)
  then show "tz_cleaned (toUpperCase (trim (''GMT'' @ s))) = s"
    by (simp only: t2 up tz_cleaned_def strip_prefix_same)
qed

lemma parseTimezoneOffset_prefixed:
  assumes "match_TZ_PATTERN s = Some (sg, hh, mm)"
  shows "parseTimezoneOffset (''UTC'' @ s) = parseTimezoneOffset s"
    and "parseTimezoneOffset (''GMT'' @ s) = parseTimezoneOffset s"
proof -
  note c = prefixed_cleaned[OF match_TZ_PATTERN_chars[OF assms, THEN conjunct1]
      match_TZ_PATTERN_chars[OF assms, THEN conjunct2]]
  have 0: "match_TZ_PATTERN (tz_cleaned (toUpperCase (trim s))) = Some (sg, hh, mm)"
    using assms by (simp add: c(1))
  have 1: "match_TZ_PATTERN (tz_cleaned (toUpperCase (trim (''UTC'' @ s)))) = Some (sg, hh, mm)"
    using assms by (simp only: c(2))
  have 2: "match_TZ_PATTERN (tz_cleaned (toUpperCase (trim (''GMT'' @ s)))) = Some (sg, hh, mm)"
    using assms by (simp only: c(3))
  show "parseTimezoneOffset (''UTC'' @ s) = parseTimezoneOffset s"
    by (simp only: parseTimezoneOffset_matched[OF 0] parseTimezoneOffset_matched[OF 1])
  show "parseTimezoneOffset (''GMT'' @ s) = parseTimezoneOffset s"
    by (simp only: parseTimezoneOffset_matched[OF 0] parseTimezoneOffset_matched[OF 2])
qed

lemma match_signed_no_colon:
  assumes "is_digit a" "is_digit b" "is_digit c" "is_digit d"
    and "p = [] \<or> p = ''+'' \<or> p = ''-''"
  shows "match_TZ_PATTERN (p @ [a, b, c, d]) = match_TZ_PATTERN (p @ [a, b, CHR '':'', c, d])"
    and "match_TZ_PATTERN (p @ [a, b, c, d]) \<noteq> None"
  using assms is_digit_facts(4,5,6)
  by (auto simp: match_TZ_PATTERN_def match_hours_def match_minutes_def Let_def)

lemma parseTimezoneOffset_no_colon:
  assumes "is_digit a" "is_digit b" "is_digit c" "is_digit d"
    and "p = [] \<or> p = ''+'' \<or> p = ''-''"
  shows "parseTimezoneOffset (p @ [a, b, c, d]) = parseTimezoneOffset (p @ [a, b, CHR '':'', c, d])"
proof -
  note m = match_signed_no_colon[OF assms]
  from m(2) obtain sg hh mm where 1: "match_TZ_PATTERN (p @ [a, b, c, d]) = Some (sg, hh, mm)"
    by (cases "match_TZ_PATTERN (p @ [a, b, c, d])") auto
  then have 2: "match_TZ_PATTERN (p @ [a, b, CHR '':'', c, d]) = Some (sg, hh, mm)"
    using m(1) by simp
  note c1 = prefixed_cleaned(1)[OF match_TZ_PATTERN_chars[OF 1, THEN conjunct1]
      match_TZ_PATTERN_chars[OF 1, THEN conjunct2]]
  note c2 = prefixed_cleaned(1)[OF match_TZ_PATTERN_chars[OF 2, THEN conjunct1]
      match_TZ_PATTERN_chars[OF 2, THEN conjunct2]]
  have 3: "match_TZ_PATTERN (tz_cleaned (toUpperCase (trim (p @ [a, b, c, d])))) = Some (sg, hh, mm)"
    using 1 by (simp only: c1)
  have 4: "match_TZ_PATTERN (tz_cleaned (toUpperCase (trim (p @ [a, b, CHR '':'', c, d])))) = Some (sg, hh, mm)"
    using 2 by (simp only: c2)
  show ?thesis
    by (simp only: parseTimezoneOffset_matched[OF 3] parseTimezoneOffset_matched[OF 4])
qed


section \<open>Lemmas on the solar position and the event solver\<close>

lemma clamp_bounds: "lo \<le> hi \<Longrightarrow> lo \<le> clamp v lo hi \<and> clamp v lo hi \<le> hi"
  by (simp add: clamp_def)

lemma rad2deg_arccos_bounds:
  assumes "- 1 \<le> x" and "x \<le> 1"
  shows "0 \<le> rad2deg (arccos x)" and "rad2deg (arccos x) \<le> 180"
proof -
  have 1: "0 \<le> arccos x" and 2: "arccos x \<le> pi"
    using assms by (simp_all add: arccos_lbound arccos_ubound)
  show "0 \<le> rad2deg (arccos x)" using 1 by (simp add: rad2deg_def RAD2DEG_def)
  have "arccos x * (180 / pi) \<le> pi * (180 / pi)"
    using 2 by (intro mult_right_mono) simp_all
  then show "rad2deg (arccos x) \<le> 180" by (simp add: rad2deg_def RAD2DEG_def)
qed

lemma js_atan2_lower: "- pi \<le> js_atan2 y x"
proof -
  have b: "- (pi / 2) < arctan (y / x)" by (rule arctan_lbound)
  have p: "0 < pi" by simp
  consider "0 < x" | "x < 0" "0 \<le> y" | "x < 0" "y < 0" | "x = 0" by linarith
  then show ?thesis
  proof cases
    case 1
    then show ?thesis using b p by (simp add: js_atan2_def; linarith)
  next
    case 2
    then show ?thesis using b p by (simp add: js_atan2_def; linarith)
  next
    case 3
    then have "0 < y / x" by (simp add: divide_neg_neg)
    then have "0 < arctan (y / x)" by (simp only: zero_less_arctan_iff)
    then show ?thesis using 3 by (simp add: js_atan2_def; linarith)
  next
    case 4
    then show ?thesis using p by (simp add: js_atan2_def; linarith)
  qed
qed

text \<open>The angle that \<open>solarPosition\<close> normalises into the azimuth is not negative, so
  that no sum is rounded.\<close>

lemma normalizeDegrees_atan2:
  "0 \<le> normalizeDegrees (rad2deg (js_atan2 y x) + 180)"
  "normalizeDegrees (rad2deg (js_atan2 y x) + 180) < 360"
proof -
  have "- pi * (180 / pi) \<le> js_atan2 y x * (180 / pi)"
    using js_atan2_lower[of y x] by (intro mult_right_mono) simp_all
  then have n: "0 \<le> rad2deg (js_atan2 y x) + 180" by (simp add: rad2deg_def RAD2DEG_def)
  show "0 \<le> normalizeDegrees (rad2deg (js_atan2 y x) + 180)"
    using n by (rule normalizeDegrees_nonneg(2))
  show "normalizeDegrees (rad2deg (js_atan2 y x) + 180) < 360"
    using n by (rule normalizeDegrees_nonneg(3))
qed

lemma solarPosition_overflow:
  assumes "double_overflows (4 * lon)"
  shows "altitude (solarPosition rnd lat lon t) = NaN"
    and "azimuth (solarPosition rnd lat lon t) = NaN"
  using assms by (simp_all add: solarPosition_def Let_def)

lemma solarPosition_finite:
  assumes "\<not> double_overflows (4 * lon)"
    and "\<not> double_overflows (utcMinutesOfDay t
           + equationOfTime (solarDeclinationAndEoT (jc (toJulianDate t))) + 4 * lon)"
  shows "altitude (solarPosition rnd lat lon t)
           = Finite (90 - rad2deg (arccos (clamp (solarPosition_cosZenith rnd lat lon t) (- 1) 1)))"
    and "\<exists>az. azimuth (solarPosition rnd lat lon t) = Finite az \<and> 0 \<le> az \<and> az < 360"
  using assms
  by (simp_all add: solarPosition_def solarPosition_cosZenith_def Let_def normalizeDegrees_atan2)

text \<open>Nothing keeps the rounded cosine of the zenith angle in \<open>[-1, 1]\<close>. Where the sun is
  at the zenith, at the latitude of the declination and the longitude of the solar noon,
  the exact value is 1, and an error of \<open>eps\<close> upwards in each rounded operation gives
  more.\<close>

lemma cosZenith_overshoot:
  assumes "0 < eps"
  shows "1 < solarPosition_cosZenith (\<lambda>x. x + eps)
     (declination (solarDeclinationAndEoT (jc (toJulianDate t))))
     ((720 - utcMinutesOfDay t - equationOfTime (solarDeclinationAndEoT (jc (toJulianDate t)))) / 4)
     t"
proof -
  define d where "d = deg2rad (declination (solarDeclinationAndEoT (jc (toJulianDate t))))"
  define s where "s = sin d"
  define c where "c = cos d"
  have r: "js_rem 720 1440 = 720"
  proof -
    have "\<lfloor>720 / 1440 :: real\<rfloor> = 0" by (rule floor_unique) simp_all
    then show ?thesis by (simp add: js_rem_def js_trunc_def)
  qed
  have z: "deg2rad 0 = 0" by (simp add: deg2rad_def)
  have a: "utcMinutesOfDay t + equationOfTime (solarDeclinationAndEoT (jc (toJulianDate t)))
             + 4 * ((720 - utcMinutesOfDay t
                     - equationOfTime (solarDeclinationAndEoT (jc (toJulianDate t)))) / 4)
           = 720"
    by (simp add: field_simps)
  have e: "solarPosition_cosZenith (\<lambda>x. x + eps)
     (declination (solarDeclinationAndEoT (jc (toJulianDate t))))
     ((720 - utcMinutesOfDay t - equationOfTime (solarDeclinationAndEoT (jc (toJulianDate t)))) / 4)
     t
     = (s + eps) * (s + eps) + eps + (((c + eps) * (c + eps) + eps) * (1 + eps) + eps) + eps"
    unfolding solarPosition_cosZenith_def Let_def a r
    by (simp add: z d_def[symmetric] s_def c_def)
  have u: "s * s + c * c = 1"
    using sin_cos_squared_add[of d] by (simp add: power2_eq_square s_def c_def)
  have b: "0 \<le> s + 1" "0 \<le> c + 1"
    using sin_ge_minus_one[of d] cos_ge_minus_one[of d] unfolding s_def c_def by linarith+
  have t1: "0 \<le> eps * (s + 1)" "0 \<le> eps * (c + 1)"
    using assms b by simp_all
  have t2: "0 < eps * eps" using assms by simp
  have t3: "0 \<le> eps * ((c + eps) * (c + eps) + eps)" using assms by simp
  have "(s + eps) * (s + eps) + eps + (((c + eps) * (c + eps) + eps) * (1 + eps) + eps) + eps
      = (s * s + c * c) + 2 * (eps * (s + 1)) + 2 * (eps * (c + 1)) + 2 * (eps * eps)
        + eps * ((c + eps) * (c + eps) + eps)"
    by (simp add: algebra_simps)
  then show ?thesis unfolding e u using t1 t2 t3 by linarith
qed

lemma twilightBand_refines:
  "band_start (twilightBand lat lon ds tz a)
     = sunriseMinutes (sunriseSunset lat lon ds tz \<lparr>sunAltitude = Some a\<rparr>)
   \<and> band_end (twilightBand lat lon ds tz a)
     = sunsetMinutes (sunriseSunset lat lon ds tz \<lparr>sunAltitude = Some a\<rparr>)"
  by (simp add: twilightBand_def sunriseSunset_def Let_def split: option.splits prod.splits)


section \<open>Lemmas on the declination\<close>

lemma declination_unfold:
  "declination (solarDeclinationAndEoT T)
     = rad2deg (arcsin (sin (deg2rad (obliqCorr_of T)) * sin (deg2rad (sunAppLong_of T))))"
  by (simp add: solarDeclinationAndEoT_def Let_def obliqCorr_of_def sunAppLong_of_def
      sunEqCenter_of_def geomMeanAnomaly_of_def geomMeanLong_raw_def)

lemma deg2rad_rad2deg: "deg2rad (rad2deg x) = x"
  by (simp add: deg2rad_def rad2deg_def DEG2RAD_def RAD2DEG_def)

lemma deg2rad_alt: "deg2rad x = x * pi / 180"
  by (simp add: deg2rad_def DEG2RAD_def)

lemma sin_deg_small:
  assumes "0 < x" and "x \<le> 30"
  shows "0 < sin (deg2rad x)" and "sin (deg2rad x) \<le> 1 / 2"
proof -
  have pos: "0 < deg2rad x" using assms(1) by (simp add: deg2rad_alt)
  have "x * pi \<le> 30 * pi" using assms(2) by simp
  then have le: "deg2rad x \<le> pi / 6" by (simp add: deg2rad_alt)
  have "deg2rad x < pi" using le pi_gt_zero by linarith
  with pos show "0 < sin (deg2rad x)" by (rule sin_gt_zero)
  have "sin (deg2rad x) \<le> sin (pi / 6)"
    using pos le pi_gt_zero by (intro sin_monotone_2pi_le) linarith+
  then show "sin (deg2rad x) \<le> 1 / 2" by (simp add: sin_30)
qed

lemma obliqCorr_bounds:
  assumes "0 \<le> T" and "T \<le> 1"
  shows "23 < obliqCorr_of T" and "obliqCorr_of T < 24"
proof -
  define c where "c = cos (deg2rad (125.04 - 1934.136 * T))"
  define a where "a = T * T"
  define b where "b = T * T * T"
  have c: "- 1 \<le> c" "c \<le> 1" by (simp_all add: c_def)
  have a: "0 \<le> a" "a \<le> 1" using assms by (simp_all add: a_def mult_le_one)
  have b: "0 \<le> b" "b \<le> 1" using assms a by (simp_all add: a_def b_def mult_le_one)
  have e: "obliqCorr_of T
      = 23 + 26 / 60 + 21448 / 3600000 - (46815 / 3600000) * T - (59 / 360000000) * a
          + (1813 / 3600000000) * b + (256 / 100000) * c"
    by (simp add: obliqCorr_of_def c_def a_def b_def field_simps)
  show "23 < obliqCorr_of T" unfolding e using assms a b c by linarith
  show "obliqCorr_of T < 24" unfolding e using assms a b c by linarith
qed

text \<open>The declination in radians is the arc sine of a product of two sines.\<close>

lemma declination_rad:
  assumes "0 \<le> T" and "T \<le> 1"
    and "s = sin (deg2rad (obliqCorr_of T)) * sin (deg2rad (sunAppLong_of T))"
  shows "deg2rad (declination (solarDeclinationAndEoT T)) = arcsin s"
    and "\<bar>s\<bar> \<le> 1 / 2"
    and "0 < sin (deg2rad (sunAppLong_of T)) \<Longrightarrow> 0 < s"
    and "sin (deg2rad (sunAppLong_of T)) < 0 \<Longrightarrow> s < 0"
proof -
  show "deg2rad (declination (solarDeclinationAndEoT T)) = arcsin s"
    by (simp add: declination_unfold deg2rad_rad2deg assms(3))
  have ob: "0 < obliqCorr_of T" "obliqCorr_of T \<le> 30"
    using obliqCorr_bounds[OF assms(1,2)] by simp_all
  note so = sin_deg_small[OF ob]
  have "\<bar>s\<bar> = \<bar>sin (deg2rad (obliqCorr_of T))\<bar> * \<bar>sin (deg2rad (sunAppLong_of T))\<bar>"
    by (simp only: assms(3) abs_mult)
  also have "\<dots> \<le> (1 / 2) * 1"
    using so by (intro mult_mono) simp_all
  finally show "\<bar>s\<bar> \<le> 1 / 2" by simp
  show "0 < s" if "0 < sin (deg2rad (sunAppLong_of T))"
    using that so(1) by (simp add: assms(3))
  show "s < 0" if "sin (deg2rad (sunAppLong_of T)) < 0"
    using that so(1) by (simp add: assms(3) mult_pos_neg)
qed

lemma arcsin_half_facts:
  assumes "\<bar>s\<bar> \<le> 1 / 2"
  shows "0 < cos (arcsin s)" and "cos (arcsin s) \<le> 1" and "sin (arcsin s) = s"
    and "0 < s \<Longrightarrow> 0 < tan (arcsin s)" and "s < 0 \<Longrightarrow> tan (arcsin s) < 0"
proof -
  have b: "- 1 < s" "s < 1" using assms by linarith+
  note a = arcsin_lt_bounded[OF b]
  show "0 < cos (arcsin s)" using a by (simp add: cos_gt_zero_pi)
  show "cos (arcsin s) \<le> 1" by simp
  show "sin (arcsin s) = s" using b by simp
  have z: "arcsin 0 = (0::real)" by simp
  show "0 < tan (arcsin s)" if "0 < s"
  proof -
    have "0 < arcsin s" using arcsin_less_mono[of 0 s] that b by simp
    then show ?thesis using a by (simp add: tan_gt_zero)
  qed
  show "tan (arcsin s) < 0" if "s < 0"
  proof -
    have "arcsin s < 0" using arcsin_less_mono[of s 0] that b by simp
    then show ?thesis using a by (simp add: tan_less_zero)
  qed
qed

lemma sqrt3_lt_2: "sqrt 3 < 2"
proof -
  have "sqrt 3 < sqrt 4" by (rule real_sqrt_less_mono) simp
  then show ?thesis by simp
qed

text \<open>At 60 degrees north the centre of the sun never reaches the zenith or the nadir.\<close>

lemma hourAngleCos_60:
  assumes "0 \<le> T" and "T \<le> 1"
  shows "hourAngleCos 60 (declination (solarDeclinationAndEoT T)) 90 > 1"
    and "hourAngleCos 60 (declination (solarDeclinationAndEoT T)) (- 90) < - 1"
proof -
  define s where "s = sin (deg2rad (obliqCorr_of T)) * sin (deg2rad (sunAppLong_of T))"
  define d where "d = arcsin s"
  have dr: "deg2rad (declination (solarDeclinationAndEoT T)) = d"
    and sb: "\<bar>s\<bar> \<le> 1 / 2"
    using declination_rad(1,2)[OF assms s_def] by (simp_all add: d_def)
  have cd: "0 < cos d" "cos d \<le> 1" and sd: "sin d = s"
    using arcsin_half_facts(1,2,3)[OF sb] by (simp_all add: d_def)
  have r60: "deg2rad 60 = pi / 3" and r0: "deg2rad 0 = 0" and r180: "deg2rad 180 = pi"
    by (simp_all add: deg2rad_alt)
  have q: "sqrt 3 * s < 1" "- 1 < sqrt 3 * s"
  proof -
    have "\<bar>sqrt 3 * s\<bar> = sqrt 3 * \<bar>s\<bar>" by (simp add: abs_mult)
    also have "\<dots> \<le> sqrt 3 * (1 / 2)" using sb by (intro mult_left_mono) simp_all
    also have "\<dots> < 1" using sqrt3_lt_2 by simp
    finally have "\<bar>sqrt 3 * s\<bar> < 1" .
    then show "sqrt 3 * s < 1" "- 1 < sqrt 3 * s" by linarith+
  qed
  have sq: "True" by simp
  have td: "tan d = s / cos d" by (simp add: tan_def sd)
  have e1: "hourAngleCos 60 (declination (solarDeclinationAndEoT T)) 90 = (2 - sqrt 3 * s) / cos d"
    using cd(1) by (simp add: hourAngleCos_def dr r60 r0 cos_60 tan_60 td field_simps)
  have e2: "hourAngleCos 60 (declination (solarDeclinationAndEoT T)) (- 90) = (- 2 - sqrt 3 * s) / cos d"
    using cd(1) by (simp add: hourAngleCos_def dr r60 r180 cos_60 tan_60 td field_simps)
  have n1: "cos d < 2 - sqrt 3 * s" using q(1) cd(2) sq by linarith
  have n2: "- 2 - sqrt 3 * s < - cos d" using q(2) cd(2) sq by linarith
  show "hourAngleCos 60 (declination (solarDeclinationAndEoT T)) 90 > 1"
    unfolding e1 using n1 cd(1) by (simp add: pos_less_divide_eq)
  show "hourAngleCos 60 (declination (solarDeclinationAndEoT T)) (- 90) < - 1"
    unfolding e2 using n2 cd(1) by (simp add: pos_divide_less_eq)
qed


section \<open>Lemmas on the equation of time\<close>

lemma abs_mult_le:
  fixes a b :: real
  assumes "\<bar>a\<bar> \<le> A" and "\<bar>b\<bar> \<le> B"
  shows "\<bar>a * b\<bar> \<le> A * B"
proof -
  have A: "0 \<le> A" using assms(1) by linarith
  have "\<bar>a * b\<bar> = \<bar>a\<bar> * \<bar>b\<bar>" by (simp only: abs_mult)
  also have "\<dots> \<le> A * B" using assms A by (intro mult_mono) simp_all
  finally show ?thesis .
qed

lemma tan_half_obliq:
  assumes "0 \<le> T" and "T \<le> 1"
  shows "0 \<le> tan (deg2rad (obliqCorr_of T) / 2)" and "tan (deg2rad (obliqCorr_of T) / 2) \<le> 1"
proof -
  define x where "x = deg2rad (obliqCorr_of T) / 2"
  note ob = obliqCorr_bounds[OF assms]
  have x0: "0 < x" using ob(1) by (simp add: x_def deg2rad_alt)
  have "obliqCorr_of T * pi \<le> 90 * pi" using ob(2) by simp
  then have x1: "x \<le> pi / 4" by (simp add: x_def deg2rad_alt)
  have "x < pi / 2" using x1 pi_gt_zero by linarith
  with x0 have "0 < tan x" by (rule tan_gt_zero)
  then show "0 \<le> tan (deg2rad (obliqCorr_of T) / 2)" by (simp add: x_def)
  have "tan x \<le> tan (pi / 4)" using x0 x1 pi_gt_zero by (intro tan_mono_le) linarith+
  then show "tan (deg2rad (obliqCorr_of T) / 2) \<le> 1" by (simp add: tan_45 x_def)
qed

text \<open>In the century from 2000 on the equation of time is half a day at most; the bound
  is a coarse one, from the bounds of the sines and cosines.\<close>

lemma equationOfTime_bounded:
  assumes "0 \<le> T" and "T \<le> 1"
  shows "\<bar>equationOfTime (solarDeclinationAndEoT T)\<bar> \<le> 720"
proof -
  define y where "y = tan (deg2rad (obliqCorr_of T) / 2)"
  define y2 where "y2 = y * y"
  define ecc where "ecc = 0.016708634 - T * (0.000042037 + 0.0000001267 * T)"
  define L where "L = deg2rad (normalizeDegrees (geomMeanLong_raw T))"
  define M where "M = deg2rad (geomMeanAnomaly_of T)"
  define X where "X = y2 * sin (2 * L) - 2 * ecc * sin M + 4 * ecc * y2 * sin M * cos (2 * L)
                      - 0.5 * y2 * y2 * sin (4 * L) - 1.25 * ecc * ecc * sin (2 * M)"
  have e: "equationOfTime (solarDeclinationAndEoT T) = 4 * rad2deg X"
    by (simp add: solarDeclinationAndEoT_def Let_def X_def y2_def y_def ecc_def L_def M_def
        obliqCorr_of_def geomMeanLong_raw_def geomMeanAnomaly_of_def)
  have y: "0 \<le> y" "y \<le> 1" using tan_half_obliq[OF assms] by (simp_all add: y_def)
  then have y2: "\<bar>y2\<bar> \<le> 1" by (simp add: y2_def mult_le_one)
  define a where "a = T * T"
  have a: "0 \<le> a" "a \<le> 1" using assms by (simp_all add: a_def mult_le_one)
  have "ecc = 16708634 / 1000000000 - (42037 / 1000000000) * T - (1267 / 10000000000) * a"
    by (simp add: ecc_def a_def field_simps)
  then have ecc: "\<bar>ecc\<bar> \<le> 1 / 50" using assms a by linarith
  define p1 where "p1 = y2 * sin (2 * L)"
  define p2 where "p2 = ecc * sin M"
  define p3 where "p3 = (ecc * y2) * (sin M * cos (2 * L))"
  define p4 where "p4 = (y2 * y2) * sin (4 * L)"
  define p5 where "p5 = (ecc * ecc) * sin (2 * M)"
  have s: "\<bar>sin (2 * L)\<bar> \<le> 1" "\<bar>sin M\<bar> \<le> 1" "\<bar>cos (2 * L)\<bar> \<le> 1"
    "\<bar>sin (4 * L)\<bar> \<le> 1" "\<bar>sin (2 * M)\<bar> \<le> 1" by simp_all
  have b1: "\<bar>p1\<bar> \<le> 1" unfolding p1_def using abs_mult_le[OF y2 s(1)] by simp
  have b2: "\<bar>p2\<bar> \<le> 1 / 50" unfolding p2_def using abs_mult_le[OF ecc s(2)] by simp
  have b3: "\<bar>p3\<bar> \<le> 1 / 50"
    unfolding p3_def using abs_mult_le[OF abs_mult_le[OF ecc y2] abs_mult_le[OF s(2) s(3)]] by simp
  have b4: "\<bar>p4\<bar> \<le> 1"
    unfolding p4_def using abs_mult_le[OF abs_mult_le[OF y2 y2] s(4)] by simp
  have b5: "\<bar>p5\<bar> \<le> 1 / 2500"
    unfolding p5_def using abs_mult_le[OF abs_mult_le[OF ecc ecc] s(5)] by simp
  have "X = p1 - 2 * p2 + 4 * p3 - (1 / 2) * p4 - (5 / 4) * p5"
    by (simp add: X_def p1_def p2_def p3_def p4_def p5_def)
  then have X: "\<bar>X\<bar> \<le> 2" using b1 b2 b3 b4 b5 by linarith
  have "180 \<le> 90 * pi" using pi_ge_two by simp
  then have q: "180 / pi \<le> 90" by (simp add: pos_divide_le_eq)
  have "\<bar>X * (180 / pi)\<bar> \<le> 2 * 90" using X q by (intro abs_mult_le) simp_all
  then show ?thesis by (simp add: e rad2deg_def RAD2DEG_def)
qed

section \<open>Lemmas on the instant of the ephemeris\<close>

lemma sunriseSunset_solveEvents:
  assumes "parseDate dateString = Some (year, month, day)"
    and "Date_UTC year (month - 1) day = Some dateUtc"
  shows "sunriseSunset latitude longitude dateString tzOffsetMinutes options
           = solveEvents (solarDeclinationAndEoT (jc (toJulianDate dateUtc)))
               latitude longitude tzOffsetMinutes options"
  using assms by (simp add: sunriseSunset_def solveEvents_def hourAngleCos_def Let_def)

lemma getUtcDateFromLocal_midnight:
  assumes "parseDate dateString = Some (year, month, day)"
    and "Date_UTC year (month - 1) day = Some dateUtc"
  shows "getUtcDateFromLocal dateString 0 0 = Some (Some dateUtc)"
proof -
  from assms(2) have "\<bar>dateUtc\<bar> \<le> 8640000000000000"
    by (auto simp: Date_UTC_def Let_def split: if_splits)
  then have "\<bar>real_of_int dateUtc\<bar> \<le> 8640000000000000" by linarith
  then show ?thesis
    using assms by (simp add: getUtcDateFromLocal_def new_Date_def js_trunc_def Let_def)
qed

subsection \<open>Signs of sines of angles in degrees\<close>

lemma sin_deg_pos: "0 < x \<Longrightarrow> x < 180 \<Longrightarrow> 0 < sin (deg2rad x)"
  by (rule sin_gt_zero) (simp_all add: deg2rad_alt)

lemma sin_deg_neg: "180 < x \<Longrightarrow> x < 360 \<Longrightarrow> sin (deg2rad x) < 0"
  by (rule sin_lt_zero) (simp_all add: deg2rad_alt)

lemma sin_deg_turns: "sin (deg2rad (x + 360 * real n)) = sin (deg2rad x)"
proof -
  have "deg2rad (x + 360 * real n) = deg2rad x + 2 * real n * pi"
    by (simp add: deg2rad_alt algebra_simps)
  then show ?thesis by (simp add: sin_add)
qed

lemma sqrt3_ge: "1732 / 1000 \<le> sqrt 3"
  by (rule real_le_rsqrt) (simp add: power2_eq_square)

lemma sin_deg_240_270:
  assumes "240 \<le> y" and "y \<le> 270"
  shows "sin (deg2rad y) \<le> - (866 / 1000)"
proof -
  have "deg2rad y = deg2rad (y - 180) + pi" by (simp add: deg2rad_alt field_simps)
  then have e: "sin (deg2rad y) = - sin (deg2rad (y - 180))" by simp
  have lo: "pi / 3 \<le> deg2rad (y - 180)" using assms(1) by (simp add: deg2rad_alt field_simps)
  have hi: "deg2rad (y - 180) \<le> pi / 2" using assms(2) by (simp add: deg2rad_alt field_simps)
  have "sin (pi / 3) \<le> sin (deg2rad (y - 180))"
    using lo hi pi_gt_zero by (intro sin_monotone_2pi_le) linarith+
  then have "sqrt 3 / 2 \<le> sin (deg2rad (y - 180))" by (simp add: sin_60)
  then show ?thesis using sqrt3_ge unfolding e by linarith
qed

lemma normalizeDegrees_26: "9360 \<le> x \<Longrightarrow> x < 9720 \<Longrightarrow> normalizeDegrees x = x - 9360"
proof -
  assume a: "9360 \<le> x" "x < 9720"
  have "\<lfloor>x / 360\<rfloor> = 26" by (rule floor_unique) (use a in simp_all)
  then show ?thesis using a by (simp add: normalizeDegrees_nonneg(1))
qed

subsection \<open>The apparent longitude around the equinox of September 2025\<close>

text \<open>\<open>18793 / 73050\<close> is the Julian century of 2025-09-23 00:00 UTC, \<open>3132 / 12175\<close> that of
  2025-09-22 12:00 UTC.\<close>

lemma sunAppLong_utc:
  "180 < sunAppLong_of (18793 / 73050)" "sunAppLong_of (18793 / 73050) < 360"
proof -
  define T :: real where "T = 18793 / 73050"
  define s1 where "s1 = sin (deg2rad (geomMeanAnomaly_of T))"
  define s2 where "s2 = sin (deg2rad (2 * geomMeanAnomaly_of T))"
  define s3 where "s3 = sin (deg2rad (3 * geomMeanAnomaly_of T))"
  define s4 where "s4 = sin (deg2rad (125.04 - 1934.136 * T))"
  have b: "- 1 \<le> s1" "s1 \<le> 1" "- 1 \<le> s2" "s2 \<le> 1" "- 1 \<le> s3" "s3 \<le> 1" "- 1 \<le> s4" "s4 \<le> 1"
    by (simp_all add: s1_def s2_def s3_def s4_def)
  have r: "9360 \<le> geomMeanLong_raw T" "geomMeanLong_raw T < 9720"
    by (simp_all add: geomMeanLong_raw_def T_def)
  have e: "sunAppLong_of T = geomMeanLong_raw T - 9360
      + (s1 * (1.914602 - T * (0.004817 + 0.000014 * T)) + s2 * (0.019993 - 0.000101 * T) + s3 * 0.000289)
      - 0.00569 - 0.00478 * s4"
    by (simp add: sunAppLong_of_def sunEqCenter_of_def normalizeDegrees_26[OF r]
        s1_def s2_def s3_def s4_def)
  show "180 < sunAppLong_of (18793 / 73050)"
    unfolding T_def[symmetric] e using b by (simp add: T_def geomMeanLong_raw_def)
  show "sunAppLong_of (18793 / 73050) < 360"
    unfolding T_def[symmetric] e using b by (simp add: T_def geomMeanLong_raw_def)
qed

lemma sunAppLong_local:
  "0 < sunAppLong_of (3132 / 12175)" "sunAppLong_of (3132 / 12175) < 180"
proof -
  define T :: real where "T = 3132 / 12175"
  define s1 where "s1 = sin (deg2rad (geomMeanAnomaly_of T))"
  define s2 where "s2 = sin (deg2rad (2 * geomMeanAnomaly_of T))"
  define s3 where "s3 = sin (deg2rad (3 * geomMeanAnomaly_of T))"
  define s4 where "s4 = sin (deg2rad (125.04 - 1934.136 * T))"
  have b: "- 1 \<le> s1" "s1 \<le> 1" "- 1 \<le> s2" "s2 \<le> 1" "- 1 \<le> s3" "s3 \<le> 1" "- 1 \<le> s4" "s4 \<le> 1"
    by (simp_all add: s1_def s2_def s3_def s4_def)
  have m: "240 \<le> geomMeanAnomaly_of T - 9360" "geomMeanAnomaly_of T - 9360 \<le> 270"
    by (simp_all add: geomMeanAnomaly_of_def T_def)
  have "geomMeanAnomaly_of T = (geomMeanAnomaly_of T - 9360) + 360 * real (26 :: nat)" by simp
  then have "s1 = sin (deg2rad (geomMeanAnomaly_of T - 9360))"
    unfolding s1_def by (metis sin_deg_turns)
  then have s1: "s1 \<le> - (866 / 1000)" using sin_deg_240_270[OF m] by simp
  have r: "9360 \<le> geomMeanLong_raw T" "geomMeanLong_raw T < 9720"
    by (simp_all add: geomMeanLong_raw_def T_def)
  have e: "sunAppLong_of T = geomMeanLong_raw T - 9360
      + (s1 * (1.914602 - T * (0.004817 + 0.000014 * T)) + s2 * (0.019993 - 0.000101 * T) + s3 * 0.000289)
      - 0.00569 - 0.00478 * s4"
    by (simp add: sunAppLong_of_def sunEqCenter_of_def normalizeDegrees_26[OF r]
        s1_def s2_def s3_def s4_def)
  show "0 < sunAppLong_of (3132 / 12175)"
    unfolding T_def[symmetric] e using b by (simp add: T_def geomMeanLong_raw_def)
  show "sunAppLong_of (3132 / 12175) < 180"
    unfolding T_def[symmetric] e using b s1 by (simp add: T_def geomMeanLong_raw_def)
qed

subsection \<open>The sign of the declination and the length of the day\<close>

lemma hourAngleCos_45:
  assumes "0 \<le> T" and "T \<le> 1"
  shows "0 < sin (deg2rad (sunAppLong_of T)) \<Longrightarrow>
           hourAngleCos 45 (declination (solarDeclinationAndEoT T)) 0 < 0"
    and "sin (deg2rad (sunAppLong_of T)) < 0 \<Longrightarrow>
           0 < hourAngleCos 45 (declination (solarDeclinationAndEoT T)) 0"
proof -
  define s where "s = sin (deg2rad (obliqCorr_of T)) * sin (deg2rad (sunAppLong_of T))"
  note d = declination_rad[OF assms s_def]
  note a = arcsin_half_facts[OF d(2)]
  have r: "deg2rad 45 = pi / 4" "deg2rad 90 = pi / 2" by (simp_all add: deg2rad_alt)
  have e: "hourAngleCos 45 (declination (solarDeclinationAndEoT T)) 0 = - tan (arcsin s)"
    by (simp add: hourAngleCos_def d(1) r tan_45)
  show "hourAngleCos 45 (declination (solarDeclinationAndEoT T)) 0 < 0"
    if "0 < sin (deg2rad (sunAppLong_of T))"
    unfolding e using a(4)[OF d(3)[OF that]] by simp
  show "0 < hourAngleCos 45 (declination (solarDeclinationAndEoT T)) 0"
    if "sin (deg2rad (sunAppLong_of T)) < 0"
    unfolding e using a(5)[OF d(4)[OF that]] by simp
qed

lemma rad2deg_arccos_pos:
  assumes "0 < c" and "c \<le> 1"
  shows "rad2deg (arccos c) < 90"
proof -
  have "arccos c < arccos 0" using assms by (intro arccos_less_arccos) simp_all
  then have "arccos c < pi / 2" by simp
  then have "arccos c * (180 / pi) < (pi / 2) * (180 / pi)"
    by (intro mult_strict_right_mono) simp_all
  then show ?thesis by (simp add: rad2deg_def RAD2DEG_def)
qed

lemma rad2deg_arccos_neg:
  assumes "c < 0" and "- 1 \<le> c"
  shows "90 < rad2deg (arccos c)"
proof -
  have "arccos 0 < arccos c" using assms by (intro arccos_less_arccos) simp_all
  then have "pi / 2 < arccos c" by simp
  then have "(pi / 2) * (180 / pi) < arccos c * (180 / pi)"
    by (intro mult_strict_right_mono) simp_all
  then show ?thesis by (simp add: rad2deg_def RAD2DEG_def)
qed

lemma solveEvents_daylight_short:
  assumes "0 < hourAngleCos latitude (declination e) a"
  shows "\<exists>v. daylightMinutes (solveEvents e latitude longitude tz \<lparr>sunAltitude = Some a\<rparr>)
              = Some (Finite v) \<and> v < 720"
proof (cases "hourAngleCos latitude (declination e) a > 1")
  case True
  then show ?thesis by (simp add: solveEvents_def Let_def)
next
  case False
  then have c: "clamp (hourAngleCos latitude (declination e) a) (- 1) 1
                  = hourAngleCos latitude (declination e) a"
    using assms by (simp add: clamp_def)
  have "rad2deg (arccos (hourAngleCos latitude (declination e) a)) < 90"
    using assms False by (intro rad2deg_arccos_pos) simp_all
  then show ?thesis using False assms by (simp add: solveEvents_def Let_def c)
qed

lemma solveEvents_daylight_long:
  assumes "hourAngleCos latitude (declination e) a < 0"
  shows "\<exists>v. daylightMinutes (solveEvents e latitude longitude tz \<lparr>sunAltitude = Some a\<rparr>)
              = Some (Finite v) \<and> 720 < v"
proof (cases "hourAngleCos latitude (declination e) a < - 1")
  case True
  then show ?thesis by (simp add: solveEvents_def Let_def)
next
  case False
  then have c: "clamp (hourAngleCos latitude (declination e) a) (- 1) 1
                  = hourAngleCos latitude (declination e) a"
    using assms by (simp add: clamp_def)
  have "90 < rad2deg (arccos (hourAngleCos latitude (declination e) a))"
    using assms False by (intro rad2deg_arccos_neg) simp_all
  then show ?thesis using False assms by (simp add: solveEvents_def Let_def c)
qed


section \<open>Lemmas on the inverse sine of the declination\<close>

lemma sin_product_bounded: "\<bar>sin a * sin b\<bar> \<le> (1 :: real)"
proof -
  have "\<bar>sin a * sin b\<bar> = \<bar>sin a\<bar> * \<bar>sin b\<bar>" by (simp only: abs_mult)
  also have "\<dots> \<le> 1 * 1" by (intro mult_mono) simp_all
  finally show ?thesis by simp
qed

lemma solarPosition_declination:
  "declination (solarPosition rnd lat lon t)
     = rad2deg (arcsin (sin (deg2rad (obliqCorr_of (jc (toJulianDate t))))
                        * sin (deg2rad (sunAppLong_of (jc (toJulianDate t))))))"
  by (simp add: solarPosition_def Let_def declination_unfold)

section \<open>Claims\<close>

text \<open>
  C1, as stated: the declination and the equation of time that \<open>sunriseSunset\<close> solves
  with are those of the Julian century of the local midnight of the civil date, the UTC
  midnight shifted by the timezone offset. For 2025-09-23 at the offset +720 minutes the
  local midnight is 2025-09-22 12:00 UTC, the time value 1758542400000. At 45 degrees north
  and the target altitude 0, the result of \<open>sunriseSunset\<close> is not the one solved with the
  declination and equation of time of that instant: the equinox lies between the local and
  the UTC midnight, so the day is longer than 720 minutes with the one and shorter with the
  other.
\<close>

theorem sunriseSunset_local_midnight_counterexample:
  "getUtcDateFromLocal ''2025-09-23'' 0 720 = Some (Some 1758542400000)
   \<and> sunriseSunset 45 0 ''2025-09-23'' 720 \<lparr>sunAltitude = Some 0\<rparr>
       \<noteq> solveEvents (solarDeclinationAndEoT (jc (toJulianDate 1758542400000)))
           45 0 720 \<lparr>sunAltitude = Some 0\<rparr>"
proof -
  have p: "parseDate ''2025-09-23'' = Some (2025, 9, 23)"
    by (simp add: parseDate_def nth_opt_def parseInt10_def Number_isFinite_def is_ws_def
        is_digit_def digits_value_def digit_val_def Let_def)
  have u: "Date_UTC 2025 (9 - 1) 23 = Some 1758585600000"
    by (simp add: Date_UTC_def MakeDay_def DayFromYear_def MonthStart_def InLeapYear_def Let_def)
  have l: "getUtcDateFromLocal ''2025-09-23'' 0 720 = Some (Some 1758542400000)"
    using p u by (simp add: getUtcDateFromLocal_def new_Date_def js_trunc_def Let_def)
  have Tu: "jc (toJulianDate 1758585600000) = 18793 / 73050"
    and Tl: "jc (toJulianDate 1758542400000) = 3132 / 12175"
    by (simp_all add: toJulianDate_def Let_def)
  have "sin (deg2rad (sunAppLong_of (18793 / 73050))) < 0"
    using sunAppLong_utc by (rule sin_deg_neg)
  then have cu: "0 < hourAngleCos 45 (declination (solarDeclinationAndEoT (18793 / 73050))) 0"
    by (intro hourAngleCos_45(2)) simp_all
  have "0 < sin (deg2rad (sunAppLong_of (3132 / 12175)))"
    using sunAppLong_local by (rule sin_deg_pos)
  then have cl: "hourAngleCos 45 (declination (solarDeclinationAndEoT (3132 / 12175))) 0 < 0"
    by (intro hourAngleCos_45(1)) simp_all
  from solveEvents_daylight_short[OF cu, of 0 720] obtain v where
    v: "daylightMinutes (solveEvents (solarDeclinationAndEoT (18793 / 73050)) 45 0 720
          \<lparr>sunAltitude = Some 0\<rparr>) = Some (Finite v)" "v < 720" by blast
  from solveEvents_daylight_long[OF cl, of 0 720] obtain w where
    w: "daylightMinutes (solveEvents (solarDeclinationAndEoT (3132 / 12175)) 45 0 720
          \<lparr>sunAltitude = Some 0\<rparr>) = Some (Finite w)" "720 < w" by blast
  have "sunriseSunset 45 0 ''2025-09-23'' 720 \<lparr>sunAltitude = Some 0\<rparr>
      = solveEvents (solarDeclinationAndEoT (18793 / 73050)) 45 0 720 \<lparr>sunAltitude = Some 0\<rparr>"
    using sunriseSunset_solveEvents[OF p u] by (simp only: Tu)
  moreover have "solveEvents (solarDeclinationAndEoT (18793 / 73050)) 45 0 720 \<lparr>sunAltitude = Some 0\<rparr>
      \<noteq> solveEvents (solarDeclinationAndEoT (3132 / 12175)) 45 0 720 \<lparr>sunAltitude = Some 0\<rparr>"
  proof
    assume "solveEvents (solarDeclinationAndEoT (18793 / 73050)) 45 0 720 \<lparr>sunAltitude = Some 0\<rparr>
      = solveEvents (solarDeclinationAndEoT (3132 / 12175)) 45 0 720 \<lparr>sunAltitude = Some 0\<rparr>"
    then have "Some (Finite v) = Some (Finite w)" using v(1) w(1) by simp
    then show False using v(2) w(2) by simp
  qed
  ultimately show ?thesis using l by (simp only: Tl) simp
qed

text \<open>
  C1, amended. For every latitude, longitude, timezone offset and date text that parses to
  a date in the range of \<open>Date\<close>, the declination and the equation of time that
  \<open>sunriseSunset\<close> solves with are \<open>solarDeclinationAndEoT\<close> at the Julian century of the
  UTC midnight of that civil date, \<open>Date.UTC(year, month - 1, day)\<close>, whatever the timezone
  offset; that instant is the midnight of the date at the offset 0.
\<close>

theorem sunriseSunset_uses_utc_midnight:
  assumes "parseDate dateString = Some (year, month, day)"
    and "Date_UTC year (month - 1) day = Some dateUtc"
  shows "sunriseSunset latitude longitude dateString tzOffsetMinutes options
           = solveEvents (solarDeclinationAndEoT (jc (toJulianDate dateUtc)))
               latitude longitude tzOffsetMinutes options
       \<and> getUtcDateFromLocal dateString 0 0 = Some (Some dateUtc)"
  using sunriseSunset_solveEvents[OF assms] getUtcDateFromLocal_midnight[OF assms] by simp

theorem sunriseSunset_uses_utc_midnight_witness:
  "parseDate ''2025-09-23'' = Some (2025, 9, 23)
   \<and> Date_UTC 2025 (9 - 1) 23 = Some 1758585600000
   \<and> sunriseSunset 45 0 ''2025-09-23'' 720 \<lparr>sunAltitude = Some 0\<rparr>
       = solveEvents (solarDeclinationAndEoT (jc (toJulianDate 1758585600000)))
           45 0 720 \<lparr>sunAltitude = Some 0\<rparr>
   \<and> getUtcDateFromLocal ''2025-09-23'' 0 0 = Some (Some 1758585600000)"
proof -
  have p: "parseDate ''2025-09-23'' = Some (2025, 9, 23)"
    by (simp add: parseDate_def nth_opt_def parseInt10_def Number_isFinite_def is_ws_def
        is_digit_def digits_value_def digit_val_def Let_def)
  have u: "Date_UTC 2025 (9 - 1) 23 = Some 1758585600000"
    by (simp add: Date_UTC_def MakeDay_def DayFromYear_def MonthStart_def InLeapYear_def Let_def)
  from sunriseSunset_uses_utc_midnight[OF p u, of 45 0 720 "\<lparr>sunAltitude = Some 0\<rparr>"] p u
  show ?thesis by simp
qed

text \<open>
  C2. For every date text that parses, the solar noon that \<open>sunriseSunset\<close> returns is
  \<open>720 - 4 * longitude - equationOfTime + tzOffsetMinutes\<close> in every status (\<open>NaN\<close> when the
  date is beyond the range of \<open>Date\<close>, where the equation of time is \<open>NaN\<close>); when
  \<open>cosH > 1\<close> the status is polar night, sunrise and sunset are \<open>null\<close> and the daylight
  is 0; when \<open>cosH < -1\<close> the status is polar day, sunrise and sunset are \<open>null\<close> and the
  daylight is 1440.
\<close>

theorem sunriseSunset_noon_and_polar:
  assumes "parseDate dateString = Some (year, month, day)"
  shows "case Date_UTC year (month - 1) day of
           None \<Rightarrow>
             solarNoonMinutes (sunriseSunset latitude longitude dateString tzOffsetMinutes options)
               = Some NaN
         | Some dateUtc \<Rightarrow>
             (let e = solarDeclinationAndEoT (jc (toJulianDate dateUtc));
                  cosH = hourAngleCos latitude (declination e)
                           (case sunAltitude options of Some a \<Rightarrow> a | None \<Rightarrow> - 0.833);
                  r = sunriseSunset latitude longitude dateString tzOffsetMinutes options
              in solarNoonMinutes r
                   = Some (Finite (720 - 4 * longitude - equationOfTime e + tzOffsetMinutes))
               \<and> (cosH > 1 \<longrightarrow>
                     status r = PolarNight \<and> sunriseMinutes r = None \<and> sunsetMinutes r = None
                     \<and> daylightMinutes r = Some (Finite 0))
               \<and> (cosH < - 1 \<longrightarrow>
                     status r = PolarDay \<and> sunriseMinutes r = None \<and> sunsetMinutes r = None
                     \<and> daylightMinutes r = Some (Finite 1440)))"
  using assms
  by (simp add: sunriseSunset_def hourAngleCos_def Let_def split: option.splits)


theorem sunriseSunset_noon_and_polar_witness:
  "parseDate ''2024-06-21'' = Some (2024, 6, 21)
   \<and> Date_UTC 2024 5 21 = Some 1718928000000
   \<and> 1 < hourAngleCos 60 (declination (solarDeclinationAndEoT (jc (toJulianDate 1718928000000)))) 90
   \<and> status (sunriseSunset 60 0 ''2024-06-21'' 0 \<lparr>sunAltitude = Some 90\<rparr>) = PolarNight
   \<and> daylightMinutes (sunriseSunset 60 0 ''2024-06-21'' 0 \<lparr>sunAltitude = Some 90\<rparr>)
       = Some (Finite 0)
   \<and> hourAngleCos 60 (declination (solarDeclinationAndEoT (jc (toJulianDate 1718928000000)))) (- 90) < - 1
   \<and> status (sunriseSunset 60 0 ''2024-06-21'' 0 \<lparr>sunAltitude = Some (- 90)\<rparr>) = PolarDay
   \<and> daylightMinutes (sunriseSunset 60 0 ''2024-06-21'' 0 \<lparr>sunAltitude = Some (- 90)\<rparr>)
       = Some (Finite 1440)
   \<and> solarNoonMinutes (sunriseSunset 60 0 ''2024-06-21'' 0 \<lparr>sunAltitude = Some 90\<rparr>)
       = Some (Finite (720 - 4 * 0
           - equationOfTime (solarDeclinationAndEoT (jc (toJulianDate 1718928000000))) + 0))"
proof -
  have p: "parseDate ''2024-06-21'' = Some (2024, 6, 21)"
    by (simp add: parseDate_def nth_opt_def parseInt10_def Number_isFinite_def is_ws_def
        is_digit_def digits_value_def digit_val_def Let_def)
  have u: "Date_UTC 2024 5 21 = Some 1718928000000"
    by (simp add: Date_UTC_def MakeDay_def DayFromYear_def MonthStart_def InLeapYear_def Let_def)
  have T: "jc (toJulianDate 1718928000000) = 715 / 2922"
    by (simp add: toJulianDate_def Let_def)
  have c: "1 < hourAngleCos 60 (declination (solarDeclinationAndEoT (jc (toJulianDate 1718928000000)))) 90"
    "hourAngleCos 60 (declination (solarDeclinationAndEoT (jc (toJulianDate 1718928000000)))) (- 90) < - 1"
    unfolding T by (rule hourAngleCos_60; simp)+
  from sunriseSunset_noon_and_polar[OF p, of 60 0 0 "\<lparr>sunAltitude = Some 90\<rparr>"]
    sunriseSunset_noon_and_polar[OF p, of 60 0 0 "\<lparr>sunAltitude = Some (- 90)\<rparr>"]
    p u c
  show ?thesis by (simp add: Let_def)
qed

text \<open>
  C3, as stated: for every finite latitude, longitude and instant, \<open>solarPosition\<close>
  returns an altitude in \<open>[-90, 90]\<close> and an azimuth in \<open>[0, 360)\<close>. The longitude
  \<open>2 ^ 1023\<close> is a finite double; four times it is not, the true solar time is the
  remainder of an infinite value, and the altitude and the azimuth are \<open>NaN\<close>.
\<close>

theorem solarPosition_overflow_counterexample:
  "\<not> double_overflows (2 ^ 1023)
   \<and> altitude (solarPosition round_double 0 (2 ^ 1023) 0) = NaN
   \<and> azimuth (solarPosition round_double 0 (2 ^ 1023) 0) = NaN"
proof -
  have 1: "\<not> double_overflows (2 ^ 1023)" by (simp add: double_overflows_def)
  have "double_overflows (4 * 2 ^ 1023)" by (simp add: double_overflows_def)
  then have "altitude (solarPosition round_double 0 (2 ^ 1023) 0) = NaN"
    "azimuth (solarPosition round_double 0 (2 ^ 1023) 0) = NaN"
    by (rule solarPosition_overflow)+
  with 1 show ?thesis by simp
qed

text \<open>
  C3, amended. For every latitude, every instant and every longitude for which neither
  \<open>4 * longitude\<close> nor the sum \<open>utcMinutes + equationOfTime + 4 * longitude\<close> leaves the
  range of the doubles, and whatever the rounding of the operations that compute the
  cosine of the zenith angle, \<open>solarPosition\<close> returns a number for the altitude, in
  \<open>[-90, 90]\<close>, and a number for the azimuth, in \<open>[0, 360)\<close>; the altitude is 90 minus the
  arc cosine of the clamped cosine of the zenith angle, and the clamped value that \<open>acos\<close>
  receives lies in \<open>[-1, 1]\<close>. The other inverse function of the computation, \<open>asin\<close> in
  the declination, receives a product of two sines, which lies in \<open>[-1, 1]\<close> as well.
\<close>

theorem solarPosition_bounded:
  assumes "\<not> double_overflows (4 * lon)"
    and "\<not> double_overflows (utcMinutesOfDay t
           + equationOfTime (solarDeclinationAndEoT (jc (toJulianDate t))) + 4 * lon)"
  shows "\<exists>alt az.
       altitude (solarPosition rnd lat lon t) = Finite alt
     \<and> azimuth (solarPosition rnd lat lon t) = Finite az
     \<and> - 90 \<le> alt \<and> alt \<le> 90 \<and> 0 \<le> az \<and> az < 360
     \<and> alt = 90 - rad2deg (arccos (clamp (solarPosition_cosZenith rnd lat lon t) (- 1) 1))
     \<and> - 1 \<le> clamp (solarPosition_cosZenith rnd lat lon t) (- 1) 1
     \<and> clamp (solarPosition_cosZenith rnd lat lon t) (- 1) 1 \<le> 1
     \<and> declination (solarPosition rnd lat lon t)
         = rad2deg (arcsin (sin (deg2rad (obliqCorr_of (jc (toJulianDate t))))
                            * sin (deg2rad (sunAppLong_of (jc (toJulianDate t))))))
     \<and> \<bar>sin (deg2rad (obliqCorr_of (jc (toJulianDate t))))
          * sin (deg2rad (sunAppLong_of (jc (toJulianDate t))))\<bar> \<le> 1"
proof -
  let ?c = "clamp (solarPosition_cosZenith rnd lat lon t) (- 1) 1"
  define alt where "alt = 90 - rad2deg (arccos ?c)"
  have c: "- 1 \<le> ?c \<and> ?c \<le> 1" by (rule clamp_bounds) simp
  then have z: "0 \<le> rad2deg (arccos ?c)" "rad2deg (arccos ?c) \<le> 180"
    by (simp_all add: rad2deg_arccos_bounds)
  have a: "- 90 \<le> alt" "alt \<le> 90" using z by (simp_all add: alt_def)
  have f: "altitude (solarPosition rnd lat lon t) = Finite alt"
    unfolding alt_def using assms by (rule solarPosition_finite(1))
  from solarPosition_finite(2)[OF assms, of rnd lat] obtain az where
    az: "azimuth (solarPosition rnd lat lon t) = Finite az" "0 \<le> az" "az < 360" by blast
  show ?thesis
    using a c f az alt_def solarPosition_declination[of rnd lat lon t]
      sin_product_bounded[of "deg2rad (obliqCorr_of (jc (toJulianDate t)))"
        "deg2rad (sunAppLong_of (jc (toJulianDate t)))"]
    by blast
qed

theorem solarPosition_bounded_witness:
  "\<not> double_overflows (4 * zenith_longitude)
   \<and> \<not> double_overflows (utcMinutesOfDay 1718971200000
          + equationOfTime (solarDeclinationAndEoT (jc (toJulianDate 1718971200000)))
          + 4 * zenith_longitude)
   \<and> 1 < solarPosition_cosZenith (\<lambda>x. x + 1 / 2 ^ 54) zenith_latitude zenith_longitude 1718971200000
   \<and> altitude (solarPosition (\<lambda>x. x + 1 / 2 ^ 54) zenith_latitude zenith_longitude 1718971200000)
       = Finite 90
   \<and> (\<exists>az. azimuth (solarPosition (\<lambda>x. x + 1 / 2 ^ 54) zenith_latitude zenith_longitude
                         1718971200000) = Finite az
           \<and> 0 \<le> az \<and> az < 360)"
proof -
  let ?rnd = "\<lambda>x :: real. x + 1 / 2 ^ 54"
  let ?E = "equationOfTime (solarDeclinationAndEoT (jc (toJulianDate 1718971200000)))"
  have T: "jc (toJulianDate 1718971200000) = 8938 / 36525"
    by (simp add: toJulianDate_def Let_def)
  have u: "utcMinutesOfDay 1718971200000 = 720" by (simp add: utcMinutesOfDay_def)
  have "\<bar>equationOfTime (solarDeclinationAndEoT (8938 / 36525))\<bar> \<le> 720"
    by (rule equationOfTime_bounded) simp_all
  then have E: "\<bar>?E\<bar> \<le> 720" by (simp only: T)
  have big: "(2000 :: real) < 2 ^ 1024 - 2 ^ 970" by simp
  have l: "4 * zenith_longitude = - ?E" by (simp add: zenith_longitude_def u)
  have h1: "\<not> double_overflows (4 * zenith_longitude)"
    unfolding l double_overflows_def using E big by linarith
  have h2: "\<not> double_overflows (utcMinutesOfDay 1718971200000 + ?E + 4 * zenith_longitude)"
    unfolding l u double_overflows_def using big by simp
  have o: "1 < solarPosition_cosZenith ?rnd zenith_latitude zenith_longitude 1718971200000"
    unfolding zenith_latitude_def zenith_longitude_def by (rule cosZenith_overshoot) simp
  then have cl: "clamp (solarPosition_cosZenith ?rnd zenith_latitude zenith_longitude 1718971200000)
                   (- 1) 1 = 1"
    by (simp add: clamp_def)
  from solarPosition_bounded[OF h1 h2, of ?rnd zenith_latitude] obtain alt az where
    r: "altitude (solarPosition ?rnd zenith_latitude zenith_longitude 1718971200000) = Finite alt"
      "azimuth (solarPosition ?rnd zenith_latitude zenith_longitude 1718971200000) = Finite az"
      "0 \<le> az" "az < 360"
      "alt = 90 - rad2deg (arccos (clamp (solarPosition_cosZenith ?rnd zenith_latitude
                                           zenith_longitude 1718971200000) (- 1) 1))"
    by blast
  from r(5) have "alt = 90" unfolding cl by (simp add: rad2deg_def)
  with r(1-4) h1 h2 o show ?thesis by blast
qed




text \<open>
  C5, as stated: whenever \<open>parseTimezoneOffset\<close> reports a valid result, the minutes lie
  in \<open>[-840, 840]\<close>. The guard rejects hours above 14 and minutes from 60 on, each on its
  own, so fourteen hours and fifty-nine minutes pass it.
\<close>

theorem parseTimezoneOffset_840_counterexample:
  "isValid (parseTimezoneOffset ''+14:59'') \<and> minutes (parseTimezoneOffset ''+14:59'') = 899"
  by code_simp

text \<open>
  C5, amended. Whenever \<open>parseTimezoneOffset\<close> reports a valid result, the minutes lie
  in \<open>[-899, 899]\<close>; an invalid result carries the minutes 0; and an input whose text
  matches the offset pattern with hours above 14 or minutes from 60 on is rejected with
  \<open>(0, false)\<close>.
\<close>

theorem parseTimezoneOffset_range:
  "(isValid (parseTimezoneOffset input) \<longrightarrow>
      - 899 \<le> minutes (parseTimezoneOffset input) \<and> minutes (parseTimezoneOffset input) \<le> 899)
   \<and> (\<not> isValid (parseTimezoneOffset input) \<longrightarrow> minutes (parseTimezoneOffset input) = 0)
   \<and> (\<forall>sg hh mm.
         match_TZ_PATTERN (tz_cleaned (toUpperCase (trim input))) = Some (sg, hh, mm)
         \<and> (14 < digits_value hh \<or> (\<exists>d. mm = Some d \<and> 60 \<le> digits_value d))
         \<longrightarrow> parseTimezoneOffset input = \<lparr>minutes = 0, isValid = False\<rparr>)"
proof (cases "match_TZ_PATTERN (tz_cleaned (toUpperCase (trim input)))")
  case None
  then show ?thesis by (simp add: parseTimezoneOffset_def Let_def)
next
  case (Some x)
  obtain sg hh mm where x: "x = (sg, hh, mm)" by (cases x)
  note m = Some[unfolded x]
  note f = match_fields(3,4)[OF m]
  note p = parseTimezoneOffset_matched[OF m]
  show ?thesis
  proof (cases "14 < digits_value hh \<or> 60 \<le> (case mm of Some d \<Rightarrow> digits_value d | None \<Rightarrow> 0)")
    case True
    then have "parseTimezoneOffset input = \<lparr>minutes = 0, isValid = False\<rparr>"
      using p by (auto simp: Let_def)
    then show ?thesis by simp
  next
    case False
    then have v: "parseTimezoneOffset input =
        \<lparr>minutes = (if sg = Some CHR ''-'' then - 1 else 1)
                     * (digits_value hh * 60 + (case mm of Some d \<Rightarrow> digits_value d | None \<Rightarrow> 0)),
         isValid = True\<rparr>"
      using p by (auto simp: Let_def)
    have "\<not> (14 < digits_value hh \<or> (\<exists>d. mm = Some d \<and> 60 \<le> digits_value d))"
      using False by (cases mm) auto
    moreover have "- 899 \<le> minutes (parseTimezoneOffset input) \<and> minutes (parseTimezoneOffset input) \<le> 899"
      using False f unfolding v by auto
    ultimately show ?thesis using m v by simp
  qed
qed

theorem parseTimezoneOffset_range_witness:
  "isValid (parseTimezoneOffset ''-14:59'') \<and> minutes (parseTimezoneOffset ''-14:59'') = - 899
   \<and> - 899 \<le> minutes (parseTimezoneOffset ''-14:59'')
   \<and> match_TZ_PATTERN (tz_cleaned (toUpperCase (trim ''+15:00''))) = Some (Some CHR ''+'', ''15'', Some ''00'')
   \<and> parseTimezoneOffset ''+15:00'' = \<lparr>minutes = 0, isValid = False\<rparr>"
proof -
  have a: "parseTimezoneOffset ''-14:59'' = \<lparr>minutes = - 899, isValid = True\<rparr>"
    by code_simp
  have b: "match_TZ_PATTERN (tz_cleaned (toUpperCase (trim ''+15:00''))) = Some (Some CHR ''+'', ''15'', Some ''00'')"
    by code_simp
  have c: "14 < digits_value ''15''" by code_simp
  from parseTimezoneOffset_range[of "''-14:59''"] parseTimezoneOffset_range[of "''+15:00''"] a b c
  show ?thesis by auto
qed

text \<open>
  C6. For every date text of which one of the first three pieces between \<open>-\<close> does not
  parse to a finite integer, \<open>sunriseSunset\<close> returns the result whose sunrise, sunset,
  solar noon and daylight are all \<open>null\<close> and whose status is \<open>normal\<close>.
\<close>

theorem sunriseSunset_unparseable:
  assumes "\<not> Number_isFinite (parseInt10 (nth_opt (split_str CHR ''-'' dateString) 0))
         \<or> \<not> Number_isFinite (parseInt10 (nth_opt (split_str CHR ''-'' dateString) 1))
         \<or> \<not> Number_isFinite (parseInt10 (nth_opt (split_str CHR ''-'' dateString) 2))"
  shows "sunriseSunset latitude longitude dateString tzOffsetMinutes options
           = \<lparr>sunriseMinutes = None, sunsetMinutes = None, solarNoonMinutes = None,
              daylightMinutes = None, status = Normal\<rparr>"
proof -
  from assms have "parseDate dateString = None"
    by (auto simp: parseDate_def Let_def)
  then show ?thesis by (simp add: sunriseSunset_def)
qed

theorem sunriseSunset_unparseable_witness:
  "\<not> Number_isFinite (parseInt10 (nth_opt (split_str CHR ''-'' ''2024-06'') 2))
   \<and> \<not> Number_isFinite (parseInt10 (nth_opt (split_str CHR ''-'' ''2024-xx-21'') 1))
   \<and> sunriseSunset 52 13 ''2024-06'' 60 \<lparr>sunAltitude = None\<rparr>
       = \<lparr>sunriseMinutes = None, sunsetMinutes = None, solarNoonMinutes = None,
          daylightMinutes = None, status = Normal\<rparr>
   \<and> sunriseSunset 52 13 ''2024-xx-21'' 60 \<lparr>sunAltitude = None\<rparr>
       = \<lparr>sunriseMinutes = None, sunsetMinutes = None, solarNoonMinutes = None,
          daylightMinutes = None, status = Normal\<rparr>"
proof -
  have a: "\<not> Number_isFinite (parseInt10 (nth_opt (split_str CHR ''-'' ''2024-06'') 2))"
    by (simp add: nth_opt_def parseInt10_def Number_isFinite_def)
  have b: "\<not> Number_isFinite (parseInt10 (nth_opt (split_str CHR ''-'' ''2024-xx-21'') 1))"
    by (simp add: nth_opt_def parseInt10_def Number_isFinite_def is_ws_def is_digit_def)
  from a b sunriseSunset_unparseable[of "''2024-06''" 52 13 60 "\<lparr>sunAltitude = None\<rparr>"]
    sunriseSunset_unparseable[of "''2024-xx-21''" 52 13 60 "\<lparr>sunAltitude = None\<rparr>"]
  show ?thesis by blast
qed

text \<open>
  C7. For every latitude, longitude, date text and timezone offset, the civil, nautical and
  astronomical bands of \<open>twilightTimes\<close> are the sunrise and sunset minutes that
  \<open>sunriseSunset\<close> returns for the target altitudes -6, -12 and -18, \<open>null\<close> fields
  included.
\<close>

theorem twilightTimes_reuse_solver:
  "band_start (civil (twilightTimes lat lon ds tz))
     = sunriseMinutes (sunriseSunset lat lon ds tz \<lparr>sunAltitude = Some (- 6)\<rparr>)
   \<and> band_end (civil (twilightTimes lat lon ds tz))
     = sunsetMinutes (sunriseSunset lat lon ds tz \<lparr>sunAltitude = Some (- 6)\<rparr>)
   \<and> band_start (nautical (twilightTimes lat lon ds tz))
     = sunriseMinutes (sunriseSunset lat lon ds tz \<lparr>sunAltitude = Some (- 12)\<rparr>)
   \<and> band_end (nautical (twilightTimes lat lon ds tz))
     = sunsetMinutes (sunriseSunset lat lon ds tz \<lparr>sunAltitude = Some (- 12)\<rparr>)
   \<and> band_start (astronomical (twilightTimes lat lon ds tz))
     = sunriseMinutes (sunriseSunset lat lon ds tz \<lparr>sunAltitude = Some (- 18)\<rparr>)
   \<and> band_end (astronomical (twilightTimes lat lon ds tz))
     = sunsetMinutes (sunriseSunset lat lon ds tz \<lparr>sunAltitude = Some (- 18)\<rparr>)"
  using twilightBand_refines[of lat lon ds tz "- 6"] twilightBand_refines[of lat lon ds tz "- 12"]
    twilightBand_refines[of lat lon ds tz "- 18"]
  by (simp add: twilightTimes_def)




text \<open>
  C9. For every series whose minutes increase strictly and every range
  \<open>[minAlt, maxAlt]\<close>, each window returned by \<open>findWindows\<close> has its start no later than
  its end, its start and its end are minutes of samples whose altitude is in the range, and
  the windows are listed in increasing order and are pairwise disjoint: the end of a window
  is before the start of every later window.
\<close>

theorem findWindows_ordered_disjoint:
  assumes "sorted_wrt (<) (map minute series)"
  shows "(\<forall>w \<in> set (findWindows series minAlt maxAlt).
            win_start w \<le> win_end w
          \<and> (\<exists>p \<in> set series. inRange minAlt maxAlt p \<and> minute p = win_start w)
          \<and> (\<exists>p \<in> set series. inRange minAlt maxAlt p \<and> minute p = win_end w))
       \<and> sorted_wrt (\<lambda>w w'. win_end w < win_start w') (findWindows series minAlt maxAlt)"
  using findWindows_ok[OF assms, of minAlt maxAlt] unfolding win_ok_def by fastforce


theorem findWindows_ordered_disjoint_witness:
  "sorted_wrt (<) (map minute example_day)
   \<and> findWindows example_day 0 6
       = [\<lparr>win_start = 15, win_end = 20\<rparr>, \<lparr>win_start = 30, win_end = 30\<rparr>]
   \<and> sorted_wrt (\<lambda>w w'. win_end w < win_start w') (findWindows example_day 0 6)"
proof -
  have h: "sorted_wrt (<) (map minute example_day)"
    by (simp add: example_day_def)
  have e: "findWindows example_day 0 6
             = [\<lparr>win_start = 15, win_end = 20\<rparr>, \<lparr>win_start = 30, win_end = 30\<rparr>]"
    by (simp add: example_day_def findWindows_def findWindows_final_def inRange_def)
  from findWindows_ordered_disjoint[OF h, of 0 6] h e show ?thesis by blast
qed

text \<open>
  C10. \<open>parseTimezoneOffset\<close> accepts an offset behind a leading \<open>UTC\<close> or \<open>GMT\<close>, with
  the result of the bare offset, and a four-digit offset without a colon, with the result of
  the same digits with a colon; in particular \<open>UTC+8\<close> and \<open>+0800\<close> both give
  \<open>(480, true)\<close>.
\<close>

theorem parseTimezoneOffset_prefix_no_colon:
  "parseTimezoneOffset ''UTC+8'' = \<lparr>minutes = 480, isValid = True\<rparr>
   \<and> parseTimezoneOffset ''+0800'' = \<lparr>minutes = 480, isValid = True\<rparr>
   \<and> (match_TZ_PATTERN s \<noteq> None \<longrightarrow>
         parseTimezoneOffset (''UTC'' @ s) = parseTimezoneOffset s
       \<and> parseTimezoneOffset (''GMT'' @ s) = parseTimezoneOffset s)
   \<and> (is_digit a \<and> is_digit b \<and> is_digit c \<and> is_digit d \<and> (p = [] \<or> p = ''+'' \<or> p = ''-'') \<longrightarrow>
         parseTimezoneOffset (p @ [a, b, c, d]) = parseTimezoneOffset (p @ [a, b, CHR '':'', c, d]))"
proof -
  have 1: "parseTimezoneOffset ''UTC+8'' = \<lparr>minutes = 480, isValid = True\<rparr>" by code_simp
  have 2: "parseTimezoneOffset ''+0800'' = \<lparr>minutes = 480, isValid = True\<rparr>" by code_simp
  have 3: "parseTimezoneOffset (''UTC'' @ s) = parseTimezoneOffset s
         \<and> parseTimezoneOffset (''GMT'' @ s) = parseTimezoneOffset s"
    if "match_TZ_PATTERN s \<noteq> None"
  proof -
    from that obtain sg hh mm where "match_TZ_PATTERN s = Some (sg, hh, mm)"
      by (cases "match_TZ_PATTERN s") auto
    then show ?thesis using parseTimezoneOffset_prefixed by blast
  qed
  from 1 2 3 parseTimezoneOffset_no_colon[of a b c d p] show ?thesis by blast
qed

theorem parseTimezoneOffset_prefix_no_colon_witness:
  "match_TZ_PATTERN ''-5:30'' = Some (Some CHR ''-'', ''5'', Some ''30'')
   \<and> parseTimezoneOffset ''GMT-5:30'' = \<lparr>minutes = - 330, isValid = True\<rparr>
   \<and> parseTimezoneOffset ''UTC-5:30'' = \<lparr>minutes = - 330, isValid = True\<rparr>
   \<and> is_digit CHR ''0'' \<and> is_digit CHR ''9''
   \<and> parseTimezoneOffset ''+0900'' = parseTimezoneOffset ''+09:00''
   \<and> parseTimezoneOffset ''+09:00'' = \<lparr>minutes = 540, isValid = True\<rparr>"
proof -
  have m: "match_TZ_PATTERN ''-5:30'' = Some (Some CHR ''-'', ''5'', Some ''30'')" by code_simp
  have v: "parseTimezoneOffset ''-5:30'' = \<lparr>minutes = - 330, isValid = True\<rparr>" by code_simp
  have d: "is_digit CHR ''0''" "is_digit CHR ''9''" by (simp_all add: is_digit_def)
  have w: "parseTimezoneOffset ''+09:00'' = \<lparr>minutes = 540, isValid = True\<rparr>" by code_simp
  from parseTimezoneOffset_prefix_no_colon[of "''-5:30''" "CHR ''0''" "CHR ''9''" "CHR ''0''" "CHR ''0''" "''+''"]
    m v d w show ?thesis by simp
qed

end
